theory Spec2Isabelle
  imports Main "HOL-Library.Multiset"
begin

section \<open>Values, runtime types and the outcome of an operation\<close>

text \<open>
  The store is generic in the C++ type \<open>T\<close> of a value. The embedding fixes the types the
  repository itself uses: \<open>int\<close>, \<open>std::string\<close>, and pointers to the three kinds of
  per-field index table (\<open>std::unordered_map<T, DataHashMap*>\<close> in DataStorage.cpp,
  \<open>std::unordered_multimap<T, DataStorageRecord*>\<close> and
  \<open>std::multimap<T, DataStorageRecord*>\<close> in the record-reference header).
  \<open>ty\<close> is what \<open>typeid\<close> compares. A pointer value carries the type of its pointee
  and an address, \<open>None\<close> being \<open>nullptr\<close>. Values of type \<open>int\<close> are only stored and
  compared, never computed with, so they are unbounded integers here.
\<close>

datatype ty =
    TInt
  | TString
  | TUnorderedMap ty
  | TUnorderedMultimap ty
  | TMultimap ty
  | TPtr ty

datatype val =
    IntV int
  | StrV string
  | PtrV ty "nat option"

fun type_of :: "val \<Rightarrow> ty" where
  "type_of (IntV i) = TInt"
| "type_of (StrV s) = TString"
| "type_of (PtrV t a) = TPtr t"

text \<open>
  A local declared as \<open>T oldData;\<close> is default-initialised: a \<open>std::string\<close> is empty,
  a scalar or a pointer holds an indeterminate value (\<open>None\<close>), and reading it is
  undefined behaviour.
\<close>

fun default_init :: "ty \<Rightarrow> val option" where
  "default_init TString = Some (StrV [])"
| "default_init t = None"

text \<open>
  Undefined behaviour of the C++ (a null or dangling pointer dereferenced, an end iterator
  dereferenced, an indeterminate value read) is an error value of the model.
\<close>

datatype error = NullDeref | UseAfterFree | EndIteratorDeref | IndeterminateRead

text \<open>The line written to \<open>std::cout\<close> by a failed type check: stored type, requested type.\<close>

datatype diag = WrongType ty ty

text \<open>
  What a cell does to the outside world: it frees its value, deletes its type saver, or
  calls an attached release callback on its value pointer. Callbacks are function pointers,
  identified by a number.
\<close>

type_synonym callback = nat

datatype event =
    FreePtr val
  | DeleteTypeSaver ty
  | Invoke callback "val option"

fun is_Invoke :: "event \<Rightarrow> bool" where
  "is_Invoke (Invoke f p) = True"
| "is_Invoke e = False"

definition invocations :: "event list \<Rightarrow> event list" where
  "invocations evs = filter is_Invoke evs"

section \<open>DataSaver: the type-erased cell (DataStorage.cpp)\<close>

text \<open>
  \<open>Ptr\<close> is the owned copy of the value (\<open>None\<close> for \<open>nullptr\<close>), \<open>DataType\<close> the saved
  \<open>typeid\<close>, \<open>DeleteFunc\<close> the release callback. \<open>DataTypeSize\<close> and \<open>CopyFunc\<close> are
  functions of \<open>T\<close> alone (\<open>sizeof(T)\<close> and T's copy constructor) and are left out: copying
  a value is copying the \<open>val\<close>.
\<close>

record DataSaver =
  Ptr :: "val option"
  DataType :: "ty option"
  DeleteFunc :: "callback option"

definition DataSaver_default :: DataSaver where
  "DataSaver_default = \<lparr>Ptr = None, DataType = None, DeleteFunc = None\<rparr>"

text \<open>The two clean-up statements shared by \<open>SetData\<close>, \<open>operator=\<close> and the destructor.\<close>

definition release_storage :: "DataSaver \<Rightarrow> event list" where
  "release_storage c =
     (case Ptr c of None \<Rightarrow> [] | Some v \<Rightarrow> [FreePtr v]) @
     (case DataType c of None \<Rightarrow> [] | Some t \<Rightarrow> [DeleteTypeSaver t])"

text \<open>\<open>SetData(data, deleteFunc)\<close>: frees what was there, stores a copy, its type and the callback.\<close>

definition DataSaver_SetData2 :: "DataSaver \<Rightarrow> val \<Rightarrow> callback option \<Rightarrow> DataSaver \<times> event list" where
  "DataSaver_SetData2 c data deleteFunc =
     (c\<lparr>Ptr := Some data, DataType := Some (type_of data), DeleteFunc := deleteFunc\<rparr>,
      release_storage c)"

text \<open>\<open>SetData(data)\<close> is \<open>SetData(data, nullptr)\<close>.\<close>

definition DataSaver_SetData :: "DataSaver \<Rightarrow> val \<Rightarrow> DataSaver \<times> event list" where
  "DataSaver_SetData c data = DataSaver_SetData2 c data None"

text \<open>
  \<open>GetData<T>(data)\<close>: the result is the returned flag, what was written to \<open>data\<close>
  (\<open>None\<close> when \<open>data\<close> is left untouched) and the lines printed.
\<close>

definition DataSaver_GetData :: "DataSaver \<Rightarrow> ty \<Rightarrow> bool \<times> val option \<times> diag list" where
  "DataSaver_GetData c T =
     (case DataType c of
        Some t \<Rightarrow>
          if t \<noteq> T then (False, None, [WrongType t T])
          else (case Ptr c of None \<Rightarrow> (False, None, []) | Some v \<Rightarrow> (True, Some v, []))
      | None \<Rightarrow>
          (case Ptr c of None \<Rightarrow> (False, None, []) | Some v \<Rightarrow> (True, Some v, [])))"

text \<open>\<open>DeleteData()\<close>: calls the callback on \<open>Ptr\<close> if there is one, then forgets it.\<close>

definition DataSaver_DeleteData :: "DataSaver \<Rightarrow> DataSaver \<times> event list" where
  "DataSaver_DeleteData c =
     (case DeleteFunc c of
        None \<Rightarrow> (c, [])
      | Some f \<Rightarrow> (c\<lparr>DeleteFunc := None\<rparr>, [Invoke f (Ptr c)]))"

text \<open>The destructor.\<close>

definition DataSaver_destroy :: "DataSaver \<Rightarrow> event list" where
  "DataSaver_destroy c = release_storage c"

text \<open>
  \<open>operator=\<close> from another cell (the self-assignment test is on addresses; the two cells of
  the model are distinct objects). An empty source clears \<open>Ptr\<close> and \<open>DataType\<close> only.
\<close>

definition DataSaver_assign :: "DataSaver \<Rightarrow> DataSaver \<Rightarrow> DataSaver \<times> event list" where
  "DataSaver_assign c src =
     (case Ptr src of
        Some v \<Rightarrow> (c\<lparr>Ptr := Some v, DataType := DataType src, DeleteFunc := DeleteFunc src\<rparr>,
                   release_storage c)
      | None \<Rightarrow> (c\<lparr>Ptr := None, DataType := None\<rparr>, release_storage c))"

text \<open>The copy constructor assigns to a default-constructed cell.\<close>

definition DataSaver_copy :: "DataSaver \<Rightarrow> DataSaver" where
  "DataSaver_copy src = fst (DataSaver_assign DataSaver_default src)"

text \<open>The constructor \<open>DataSaver(data, deleteFunc)\<close> calls \<open>SetData\<close> on a fresh cell.\<close>

definition DataSaver_make :: "val \<Rightarrow> callback option \<Rightarrow> DataSaver" where
  "DataSaver_make data deleteFunc = fst (DataSaver_SetData2 DataSaver_default data deleteFunc)"

subsection \<open>The life of one cell\<close>

text \<open>
  The calls a cell can receive between its construction and its destruction. A cell's life
  is a list of such calls followed by the destructor; \<open>lifetime\<close> collects every event.
\<close>

datatype cell_op =
    OpSetData val
  | OpSetData2 val "callback option"
  | OpGetData ty
  | OpDeleteData
  | OpAssign DataSaver

fun apply_cell_op :: "DataSaver \<Rightarrow> cell_op \<Rightarrow> DataSaver \<times> event list" where
  "apply_cell_op c (OpSetData v) = DataSaver_SetData c v"
| "apply_cell_op c (OpSetData2 v f) = DataSaver_SetData2 c v f"
| "apply_cell_op c (OpGetData T) = (c, [])"
| "apply_cell_op c OpDeleteData = DataSaver_DeleteData c"
| "apply_cell_op c (OpAssign src) = DataSaver_assign c src"

fun lifetime :: "DataSaver \<Rightarrow> cell_op list \<Rightarrow> event list" where
  "lifetime c [] = DataSaver_destroy c"
| "lifetime c (op # ops) = (case apply_cell_op c op of (c', evs) \<Rightarrow> evs @ lifetime c' ops)"

text \<open>The calls that hand the cell a callback (again).\<close>

fun attaches :: "cell_op \<Rightarrow> bool" where
  "attaches (OpSetData2 v (Some f)) = True"
| "attaches (OpAssign src) = (Ptr src \<noteq> None \<and> DeleteFunc src \<noteq> None)"
| "attaches op = False"

section \<open>DataContainer: the keyed containers (DataContainer.h, DataStorage.cpp)\<close>

text \<open>
  \<open>DataHashMap\<close> wraps \<open>std::unordered_map<std::string, DataSaver>\<close>: at most one cell per
  key. \<open>emplace\<close> inserts nothing when the key is present. The element stored is a copy of
  the temporary \<open>DataSaver(data, deleteFunc)\<close> (the class declares a copy constructor and
  no move constructor).
\<close>

type_synonym DataHashMap = "string \<rightharpoonup> DataSaver"

definition AddData2 :: "DataHashMap \<Rightarrow> string \<Rightarrow> val \<Rightarrow> callback option \<Rightarrow> DataHashMap" where
  "AddData2 C key data deleteFunc =
     (case C key of
        None \<Rightarrow> C(key \<mapsto> DataSaver_copy (DataSaver_make data deleteFunc))
      | Some c \<Rightarrow> C)"

definition AddData :: "DataHashMap \<Rightarrow> string \<Rightarrow> val \<Rightarrow> DataHashMap" where
  "AddData C key data =
     (case C key of
        None \<Rightarrow> C(key \<mapsto> DataSaver_copy (DataSaver_make data None))
      | Some c \<Rightarrow> C)"

definition SetData2 :: "DataHashMap \<Rightarrow> string \<Rightarrow> val \<Rightarrow> callback option \<Rightarrow> DataHashMap" where
  "SetData2 C key data deleteFunc =
     (case C key of
        None \<Rightarrow> AddData2 C key data deleteFunc
      | Some c \<Rightarrow> C(key \<mapsto> fst (DataSaver_SetData2 c data deleteFunc)))"

definition SetData :: "DataHashMap \<Rightarrow> string \<Rightarrow> val \<Rightarrow> DataHashMap" where
  "SetData C key data = SetData2 C key data None"

text \<open>\<open>GetData\<close> discards the flag of the cell's \<open>GetData\<close> and returns true for a key found.\<close>

definition GetData :: "DataHashMap \<Rightarrow> string \<Rightarrow> ty \<Rightarrow> bool \<times> val option \<times> diag list" where
  "GetData C key T =
     (case C key of
        None \<Rightarrow> (False, None, [])
      | Some c \<Rightarrow> (case DataSaver_GetData c T of (r, written, out) \<Rightarrow> (True, written, out)))"

definition IsData :: "DataHashMap \<Rightarrow> string \<Rightarrow> bool" where
  "IsData C key = (C key \<noteq> None)"

text \<open>\<open>DeleteData(key)\<close> of DataStorage.cpp: release callback, then erase (which destroys the cell).\<close>

definition DeleteData :: "DataHashMap \<Rightarrow> string \<Rightarrow> DataHashMap \<times> event list" where
  "DeleteData C key =
     (case C key of
        None \<Rightarrow> (C, [])
      | Some c \<Rightarrow> (case DataSaver_DeleteData c of (c', evs) \<Rightarrow>
                    (C(key := None), evs @ DataSaver_destroy c')))"

text \<open>
  \<open>DataMultiHashMap\<close> wraps \<open>std::unordered_multimap<std::string, DataSaver>\<close>: the list of
  its elements in iteration order. \<open>find\<close> returns the first element with the key.
  \<open>emplace\<close> always inserts: elements with equal keys are kept adjacent, and the new element
  goes in front of those that have its key, so \<open>find\<close> then returns the newest; with no
  element of that key it goes to the end of the list.
\<close>

type_synonym DataMultiHashMap = "(string \<times> DataSaver) list"

fun multi_find :: "DataMultiHashMap \<Rightarrow> string \<Rightarrow> DataSaver option" where
  "multi_find [] key = None"
| "multi_find ((k, c) # rest) key = (if k = key then Some c else multi_find rest key)"

fun multi_update :: "DataMultiHashMap \<Rightarrow> string \<Rightarrow> DataSaver \<Rightarrow> DataMultiHashMap" where
  "multi_update [] key c' = []"
| "multi_update ((k, c) # rest) key c' =
     (if k = key then (k, c') # rest else (k, c) # multi_update rest key c')"

fun multi_emplace :: "DataMultiHashMap \<Rightarrow> string \<Rightarrow> DataSaver \<Rightarrow> DataMultiHashMap" where
  "multi_emplace [] key c' = [(key, c')]"
| "multi_emplace ((k, c) # rest) key c' =
     (if k = key then (key, c') # (k, c) # rest else (k, c) # multi_emplace rest key c')"

definition Multi_AddData2 :: "DataMultiHashMap \<Rightarrow> string \<Rightarrow> val \<Rightarrow> callback option \<Rightarrow> DataMultiHashMap" where
  "Multi_AddData2 C key data deleteFunc =
     multi_emplace C key (DataSaver_copy (DataSaver_make data deleteFunc))"

definition Multi_SetData2 :: "DataMultiHashMap \<Rightarrow> string \<Rightarrow> val \<Rightarrow> callback option \<Rightarrow> DataMultiHashMap" where
  "Multi_SetData2 C key data deleteFunc =
     (case multi_find C key of
        None \<Rightarrow> Multi_AddData2 C key data deleteFunc
      | Some c \<Rightarrow> multi_update C key (fst (DataSaver_SetData2 c data deleteFunc)))"

definition Multi_SetData :: "DataMultiHashMap \<Rightarrow> string \<Rightarrow> val \<Rightarrow> DataMultiHashMap" where
  "Multi_SetData C key data = Multi_SetData2 C key data None"

section \<open>Records and record references (the record-reference header)\<close>

text \<open>
  The heap. \<open>Records\<close> holds the live \<open>DataStorageRecord\<close> objects (a \<open>DataHashMap\<close> each;
  an address that is not mapped has been released). \<open>Structures\<close> holds the two per-storage
  tables of index pointers, \<open>DataStorageStructureHashMap\<close> and \<open>DataStorageStructureMap\<close>:
  their declarations are not in this header, which calls \<open>GetData(key, pointer)\<close> on them,
  and DataContainer.h documents the structure as a \<open>DataHashMap\<close> from field name to a
  pointer to the field's table. \<open>HashTables\<close> holds the
  \<open>std::unordered_multimap<T, DataStorageRecord*>\<close> objects and \<open>MapTables\<close> the
  \<open>std::multimap<T, DataStorageRecord*>\<close> objects, each as the multiset of its
  (key, record address) entries: the methods modelled here only insert an entry and erase
  one entry with a given key and payload, and entries equal in both are interchangeable, so
  the order of iteration plays no part. \<open>ValidFlags\<close> holds the shared validity booleans,
  \<open>Cout\<close> what has been printed.
\<close>

record world =
  Records :: "nat \<rightharpoonup> DataHashMap"
  Structures :: "nat \<rightharpoonup> DataHashMap"
  HashTables :: "nat \<rightharpoonup> (val \<times> nat) multiset"
  MapTables :: "nat \<rightharpoonup> (val \<times> nat) multiset"
  ValidFlags :: "nat \<rightharpoonup> bool"
  Cout :: "diag list"

record DataStorageRecordRef =
  DataRecord :: "nat option"
  DataStorageHashMapStructure :: "nat option"
  DataStorageMapStructure :: "nat option"
  IsDataStorageRecordValid :: "nat option"

text \<open>Dereferencing a pointer: null and released addresses are undefined behaviour.\<close>

definition deref :: "(nat \<rightharpoonup> 'a) \<Rightarrow> nat option \<Rightarrow> error + 'a" where
  "deref h p =
     (case p of
        None \<Rightarrow> Inl NullDeref
      | Some a \<Rightarrow> (case h a of None \<Rightarrow> Inl UseAfterFree | Some x \<Rightarrow> Inr x))"

text \<open>
  A pointer local initialised with \<open>nullptr\<close> and then passed to \<open>GetData\<close>: the address it
  holds afterwards.
\<close>

fun pointer_after :: "val option \<Rightarrow> nat option" where
  "pointer_after (Some (PtrV t a)) = a"
| "pointer_after written = None"

text \<open>A local \<open>T oldData;\<close> passed to \<open>GetData\<close>: the value it holds afterwards, if determinate.\<close>

definition local_after :: "ty \<Rightarrow> val option \<Rightarrow> val option" where
  "local_after T written = (case written of Some v \<Rightarrow> Some v | None \<Rightarrow> default_init T)"

text \<open>
  The loop over \<open>equal_range(oldData)\<close> erases the first entry whose payload is the record and
  stops; \<open>emplace\<close> then adds the new entry.
\<close>

definition relocate :: "(val \<times> nat) multiset \<Rightarrow> val \<Rightarrow> val \<Rightarrow> nat \<Rightarrow> (val \<times> nat) multiset" where
  "relocate M oldData data r = add_mset (data, r) (M - {#(oldData, r)#})"

text \<open>
  \<open>DataStorageRecordRef::SetData<T>(key, data)\<close>, with \<open>T\<close> the type of \<open>data\<close>. Neither
  this method nor \<open>GetData\<close> reads \<open>IsDataStorageRecordValid\<close>. The return value of the
  record's \<open>GetData\<close> is not looked at.
\<close>

definition RecordRef_SetData ::
  "DataStorageRecordRef \<Rightarrow> string \<Rightarrow> val \<Rightarrow> world \<Rightarrow> error + (bool \<times> world)" where
  "RecordRef_SetData ref key data w =
     (case deref (Structures w) (DataStorageHashMapStructure ref) of
        Inl e \<Rightarrow> Inl e
      | Inr HS \<Rightarrow>
     (case GetData HS key (TPtr (TUnorderedMultimap (type_of data))) of (found1, written1, out1) \<Rightarrow>
      if \<not> found1 then Inr (False, w\<lparr>Cout := Cout w @ out1\<rparr>)
      else
     (case deref (Structures w) (DataStorageMapStructure ref) of
        Inl e \<Rightarrow> Inl e
      | Inr MS \<Rightarrow>
     (case GetData MS key (TPtr (TMultimap (type_of data))) of (found2, written2, out2) \<Rightarrow>
      if \<not> found2 then Inr (False, w\<lparr>Cout := Cout w @ out1 @ out2\<rparr>)
      else
     (case deref (Records w) (DataRecord ref) of
        Inl e \<Rightarrow> Inl e
      | Inr R \<Rightarrow>
     (case GetData R key (type_of data) of (found3, written3, out3) \<Rightarrow>
     (case deref (HashTables w) (pointer_after written1) of
        Inl e \<Rightarrow> Inl e
      | Inr HT \<Rightarrow>
     (case local_after (type_of data) written3 of
        None \<Rightarrow> Inl IndeterminateRead
      | Some oldData \<Rightarrow>
     (case deref (MapTables w) (pointer_after written2) of
        Inl e \<Rightarrow> Inl e
      | Inr MT \<Rightarrow>
        Inr (True,
          w\<lparr>HashTables := (HashTables w)
               (the (pointer_after written1) \<mapsto> relocate HT oldData data (the (DataRecord ref))),
            MapTables := (MapTables w)
               (the (pointer_after written2) \<mapsto> relocate MT oldData data (the (DataRecord ref))),
            Records := (Records w)(the (DataRecord ref) \<mapsto> SetData R key data),
            Cout := Cout w @ out1 @ out2 @ out3\<rparr>))))))))))"

text \<open>\<open>DataStorageRecordRef::GetData<T>(key, data)\<close>: the record's \<open>GetData\<close>.\<close>

definition RecordRef_GetData ::
  "DataStorageRecordRef \<Rightarrow> string \<Rightarrow> ty \<Rightarrow> world \<Rightarrow> error + (bool \<times> val option \<times> diag list)" where
  "RecordRef_GetData ref key T w =
     (case deref (Records w) (DataRecord ref) of
        Inl e \<Rightarrow> Inl e
      | Inr R \<Rightarrow> Inr (GetData R key T))"

text \<open>
  Modelled from the spec: \<open>IsValid\<close> is declared in the header and defined in
  DataStorageRecord.cpp, which is missing; the spec says it reads the weak copy of the
  record's validity flag. A ref without a flag, or whose flag cell is gone, is not valid.
\<close>

definition RecordRef_IsValid :: "DataStorageRecordRef \<Rightarrow> world \<Rightarrow> bool" where
  "RecordRef_IsValid ref w =
     (case IsDataStorageRecordValid ref of
        None \<Rightarrow> False
      | Some a \<Rightarrow> (case ValidFlags w a of None \<Rightarrow> False | Some b \<Rightarrow> b))"

section \<open>The storage of DataStorage.cpp\<close>

text \<open>
  \<open>std::unordered_map<T, DataHashMap*>\<close>, the per-field index of this file: the list of its
  entries. \<open>find\<close> returns the entry of a key, \<open>emplace\<close> inserts nothing when the key
  is there, \<open>erase(key)\<close> removes what is stored under the key.
\<close>

type_synonym index_table = "(val \<times> nat) list"

definition umap_find :: "index_table \<Rightarrow> val \<Rightarrow> nat option" where
  "umap_find idx k = map_of idx k"

definition umap_emplace :: "index_table \<Rightarrow> val \<Rightarrow> nat \<Rightarrow> index_table" where
  "umap_emplace idx k p = (case map_of idx k of None \<Rightarrow> idx @ [(k, p)] | Some q \<Rightarrow> idx)"

definition umap_erase :: "index_table \<Rightarrow> val \<Rightarrow> index_table" where
  "umap_erase idx k = filter (\<lambda>e. fst e \<noteq> k) idx"

text \<open>The records registered under a value in a table.\<close>

definition registered :: "index_table \<Rightarrow> val \<Rightarrow> nat list" where
  "registered idx v = map snd (filter (\<lambda>e. fst e = v) idx)"

text \<open>
  The one \<open>DataStorage\<close> object with its members, and the heap it allocates from:
  \<open>RecordHeap\<close> holds the \<open>DataHashMap\<close> objects made by \<open>CreateNewRecord\<close>, \<open>IndexHeap\<close> the
  index tables made by \<open>AddParam\<close>. A filler is the closure stored by \<open>AddParam\<close>: the
  captured table pointer and default value. \<open>DataStorageRecordFillers\<close> is an
  \<open>unordered_map\<close> keyed by field name, kept as the list of its entries. \<open>Printed\<close> is
  what went to \<open>std::cout\<close>.
\<close>

record storage =
  RecordTemplate :: DataHashMap
  KeysMaps :: DataHashMap
  DataStorageRecordFillers :: "(string \<times> nat \<times> val) list"
  RecordsList :: "nat list"
  RecordHeap :: "nat \<rightharpoonup> DataHashMap"
  IndexHeap :: "nat \<rightharpoonup> index_table"
  Printed :: "diag list"

definition DataStorage_init :: storage where
  "DataStorage_init =
     \<lparr>RecordTemplate = Map.empty, KeysMaps = Map.empty, DataStorageRecordFillers = [],
      RecordsList = [], RecordHeap = Map.empty, IndexHeap = Map.empty, Printed = []\<rparr>"

text \<open>
  The handle class \<open>DataStorageRecord\<close> of DataStorage.cpp: a pointer to the record and a
  pointer to the storage's \<open>KeysMaps\<close> member (\<open>Some ()\<close>), or \<open>nullptr\<close>.
\<close>

record DataStorageRecord =
  Data :: "nat option"
  KeysMapsPtr :: "unit option"

text \<open>The callback \<open>AddParam\<close> attaches to a table pointer: it deletes the table.\<close>

definition delete_table :: callback where
  "delete_table = 0"

definition fillers_emplace ::
  "(string \<times> nat \<times> val) list \<Rightarrow> string \<Rightarrow> nat \<times> val \<Rightarrow> (string \<times> nat \<times> val) list" where
  "fillers_emplace F name f = (case map_of F name of None \<Rightarrow> F @ [(name, f)] | Some g \<Rightarrow> F)"

text \<open>
  \<open>AddParam<T>(paramName, defaultParamValue)\<close>; \<open>pointer\<close> is the address that
  \<open>new std::unordered_map<T, DataHashMap*>\<close> returns.
\<close>

definition AddParam :: "storage \<Rightarrow> string \<Rightarrow> val \<Rightarrow> nat \<Rightarrow> storage" where
  "AddParam s paramName defaultParamValue pointer =
     s\<lparr>RecordTemplate := AddData (RecordTemplate s) paramName defaultParamValue,
       IndexHeap := (IndexHeap s)(pointer \<mapsto> []),
       KeysMaps := AddData2 (KeysMaps s) paramName
          (PtrV (TUnorderedMap (type_of defaultParamValue)) (Some pointer)) (Some delete_table),
       DataStorageRecordFillers :=
          fillers_emplace (DataStorageRecordFillers s) paramName (pointer, defaultParamValue)\<rparr>"

text \<open>The loop of \<open>CreateNewRecord\<close> over the fillers, each \<open>pointer->emplace(default, newRecord)\<close>.\<close>

fun run_fillers ::
  "(string \<times> nat \<times> val) list \<Rightarrow> nat \<Rightarrow> (nat \<rightharpoonup> index_table) \<Rightarrow> error + (nat \<rightharpoonup> index_table)" where
  "run_fillers [] newRecord H = Inr H"
| "run_fillers ((name, pointer, dflt) # rest) newRecord H =
     (case H pointer of
        None \<Rightarrow> Inl UseAfterFree
      | Some idx \<Rightarrow> run_fillers rest newRecord (H(pointer \<mapsto> umap_emplace idx dflt newRecord)))"

text \<open>\<open>new DataHashMap(RecordTemplate)\<close> copies every cell with the cell's copy constructor.\<close>

definition copy_container :: "DataHashMap \<Rightarrow> DataHashMap" where
  "copy_container C = (\<lambda>k. map_option DataSaver_copy (C k))"

text \<open>\<open>CreateNewRecord()\<close>; \<open>newData\<close> is the address that \<open>new DataHashMap\<close> returns.\<close>

definition CreateNewRecord :: "storage \<Rightarrow> nat \<Rightarrow> error + (DataStorageRecord \<times> storage)" where
  "CreateNewRecord s newData =
     (case run_fillers (DataStorageRecordFillers s) newData (IndexHeap s) of
        Inl e \<Rightarrow> Inl e
      | Inr H \<Rightarrow>
          Inr (\<lparr>Data = Some newData, KeysMapsPtr = Some ()\<rparr>,
               s\<lparr>RecordHeap := (RecordHeap s)(newData \<mapsto> copy_container (RecordTemplate s)),
                 RecordsList := RecordsList s @ [newData],
                 IndexHeap := H\<rparr>))"

text \<open>
  \<open>GetRecord<T>(paramName, paramValue, foundedRecord)\<close>: the flag returned, the handle
  afterwards and the lines printed.
\<close>

definition GetRecord ::
  "storage \<Rightarrow> string \<Rightarrow> val \<Rightarrow> DataStorageRecord \<Rightarrow> error + (bool \<times> DataStorageRecord \<times> diag list)" where
  "GetRecord s paramName paramValue foundedRecord =
     (case GetData (KeysMaps s) paramName (TPtr (TUnorderedMap (type_of paramValue))) of
        (found, written, out) \<Rightarrow>
          if found then
            (case deref (IndexHeap s) (pointer_after written) of
               Inl e \<Rightarrow> Inl e
             | Inr reqMap \<Rightarrow>
                 (case umap_find reqMap paramValue of
                    Some r \<Rightarrow> Inr (True, foundedRecord\<lparr>Data := Some r, KeysMapsPtr := Some ()\<rparr>, out)
                  | None \<Rightarrow> Inr (False, foundedRecord, out)))
          else Inr (False, foundedRecord, out))"

text \<open>
  \<open>DataStorageRecord::SetData<T>(key, data)\<close> of DataStorage.cpp (it returns \<open>void\<close>). The
  results of both \<open>GetData\<close> calls are not looked at; the record changed first is the one
  found in the index under the old value. Cells of a record carry no callback, so the
  events of \<open>DeleteData\<close> are dropped.
\<close>

definition DataStorageRecord_SetData ::
  "DataStorageRecord \<Rightarrow> string \<Rightarrow> val \<Rightarrow> storage \<Rightarrow> error + storage" where
  "DataStorageRecord_SetData h key data s =
     (case KeysMapsPtr h of
        None \<Rightarrow> Inl NullDeref
      | Some u \<Rightarrow>
     (case GetData (KeysMaps s) key (TPtr (TUnorderedMap (type_of data))) of (found1, written1, out1) \<Rightarrow>
     (case deref (RecordHeap s) (Data h) of
        Inl e \<Rightarrow> Inl e
      | Inr R \<Rightarrow>
     (case GetData R key (type_of data) of (found2, written2, out2) \<Rightarrow>
     (case deref (IndexHeap s) (pointer_after written1) of
        Inl e \<Rightarrow> Inl e
      | Inr idx \<Rightarrow>
     (case local_after (type_of data) written2 of
        None \<Rightarrow> Inl IndeterminateRead
      | Some oldData \<Rightarrow>
     (case umap_find idx oldData of
        None \<Rightarrow> Inl EndIteratorDeref
      | Some r' \<Rightarrow>
     (case deref (RecordHeap s) (Some r') of
        Inl e \<Rightarrow> Inl e
      | Inr R' \<Rightarrow>
     (case ((RecordHeap s)(r' \<mapsto> AddData (fst (DeleteData R' key)) key data)) (the (Data h)) of
        None \<Rightarrow> Inl UseAfterFree
      | Some Rcur \<Rightarrow>
        Inr (s\<lparr>RecordHeap :=
                 (RecordHeap s)(r' \<mapsto> AddData (fst (DeleteData R' key)) key data,
                                the (Data h) \<mapsto> SetData Rcur key data),
               IndexHeap := (IndexHeap s)
                 (the (pointer_after written1) \<mapsto>
                    umap_emplace (umap_erase idx oldData) data (the (Data h))),
               Printed := Printed s @ out1 @ out2\<rparr>))))))))))"

text \<open>\<open>DataStorageRecord::GetData<T>(key, data)\<close> of DataStorage.cpp.\<close>

definition DataStorageRecord_GetData ::
  "DataStorageRecord \<Rightarrow> string \<Rightarrow> ty \<Rightarrow> storage \<Rightarrow> error + (bool \<times> val option \<times> diag list)" where
  "DataStorageRecord_GetData h key T s =
     (case deref (RecordHeap s) (Data h) of
        Inl e \<Rightarrow> Inl e
      | Inr R \<Rightarrow> Inr (GetData R key T))"

section \<open>Predicates of the statements, and example states\<close>

text \<open>A cell that holds the value \<open>v\<close> with \<open>v\<close>'s type saved.\<close>

definition cell_holds :: "DataSaver \<Rightarrow> val \<Rightarrow> bool" where
  "cell_holds c v = (Ptr c = Some v \<and> DataType c = Some (type_of v))"

text \<open>The entries of an index table whose payload is the record \<open>r\<close>.\<close>

definition entries_of :: "(val \<times> nat) multiset \<Rightarrow> nat \<Rightarrow> (val \<times> nat) multiset" where
  "entries_of M r = filter_mset (\<lambda>e. snd e = r) M"

text \<open>
  A storage of the record-reference engine with the fields \<open>id\<close> (an \<open>int\<close>) and \<open>name\<close>
  (a string) and two records; the structure of hash tables is at address 0, the structure of
  ordered tables at address 1.
\<close>

definition example_record0 :: DataHashMap where
  "example_record0 =
     [''id'' \<mapsto> DataSaver_make (IntV (- 1)) None, ''name'' \<mapsto> DataSaver_make (StrV '''') None]"

definition example_record1 :: DataHashMap where
  "example_record1 =
     [''id'' \<mapsto> DataSaver_make (IntV 1) None, ''name'' \<mapsto> DataSaver_make (StrV ''moop'') None]"

definition example_hash_structure :: DataHashMap where
  "example_hash_structure =
     [''id'' \<mapsto> DataSaver_make (PtrV (TUnorderedMultimap TInt) (Some 0)) (Some delete_table),
      ''name'' \<mapsto> DataSaver_make (PtrV (TUnorderedMultimap TString) (Some 1)) (Some delete_table)]"

definition example_map_structure :: DataHashMap where
  "example_map_structure =
     [''id'' \<mapsto> DataSaver_make (PtrV (TMultimap TInt) (Some 0)) (Some delete_table),
      ''name'' \<mapsto> DataSaver_make (PtrV (TMultimap TString) (Some 1)) (Some delete_table)]"

definition example_world :: world where
  "example_world =
     \<lparr>Records = [0 \<mapsto> example_record0, 1 \<mapsto> example_record1],
      Structures = [0 \<mapsto> example_hash_structure, 1 \<mapsto> example_map_structure],
      HashTables = [0 \<mapsto> {#(IntV (- 1), 0), (IntV 1, 1)#}, 1 \<mapsto> {#(StrV '''', 0), (StrV ''moop'', 1)#}],
      MapTables = [0 \<mapsto> {#(IntV (- 1), 0), (IntV 1, 1)#}, 1 \<mapsto> {#(StrV '''', 0), (StrV ''moop'', 1)#}],
      ValidFlags = [0 \<mapsto> True, 1 \<mapsto> True],
      Cout = []\<rparr>"

definition example_ref :: DataStorageRecordRef where
  "example_ref = \<lparr>DataRecord = Some 0, DataStorageHashMapStructure = Some 0,
     DataStorageMapStructure = Some 1, IsDataStorageRecordValid = Some 0\<rparr>"

text \<open>The same storage after record 0 was destroyed: flag cleared, then storage released.\<close>

definition destroyed_world :: world where
  "destroyed_world =
     example_world\<lparr>Records := (Records example_world)(0 := None),
                    ValidFlags := (ValidFlags example_world)(0 \<mapsto> False)\<rparr>"

text \<open>The moment in between: the flag is cleared and the record's storage is still there.\<close>

definition flag_cleared_world :: world where
  "flag_cleared_world = example_world\<lparr>ValidFlags := (ValidFlags example_world)(0 \<mapsto> False)\<rparr>"

text \<open>The example storage after \<open>SetData("name", "mrognor")\<close> through a ref to record 0.\<close>

definition example_world_renamed :: world where
  "example_world_renamed =
     example_world\<lparr>
       HashTables := (HashTables example_world)
          (1 \<mapsto> relocate {#(StrV '''', 0), (StrV ''moop'', 1)#} (StrV '''') (StrV ''mrognor'') 0),
       MapTables := (MapTables example_world)
          (1 \<mapsto> relocate {#(StrV '''', 0), (StrV ''moop'', 1)#} (StrV '''') (StrV ''mrognor'') 0),
       Records := (Records example_world)(0 \<mapsto> SetData example_record0 ''name'' (StrV ''mrognor''))\<rparr>"

text \<open>A second ref to record 0, as a lookup would bind it.\<close>

definition example_ref_again :: DataStorageRecordRef where
  "example_ref_again = \<lparr>DataRecord = Some 0, DataStorageHashMapStructure = Some 0,
     DataStorageMapStructure = Some 1, IsDataStorageRecordValid = Some 0\<rparr>"

text \<open>At most one record is registered under any value, in every index table of the storage.\<close>

definition unique_keys :: "storage \<Rightarrow> bool" where
  "unique_keys s = (\<forall>a idx v. IndexHeap s a = Some idx \<longrightarrow> length (registered idx v) \<le> 1)"

text \<open>
  A run of DataStorage.cpp's storage: \<open>AddParam("id", -1)\<close> (its table at address 0), then
  two calls of \<open>CreateNewRecord\<close> (records at addresses 0 and 1), then \<open>SetData("id", 5)\<close>
  through the handle of the first record.
\<close>

definition created :: "error + (DataStorageRecord \<times> storage) \<Rightarrow> storage" where
  "created res = snd (projr res)"

definition storage_id :: storage where
  "storage_id = AddParam DataStorage_init ''id'' (IntV (- 1)) 0"

definition storage_one :: storage where
  "storage_one = created (CreateNewRecord storage_id 0)"

definition storage_two :: storage where
  "storage_two = created (CreateNewRecord storage_one 1)"

definition handle0 :: DataStorageRecord where
  "handle0 = \<lparr>Data = Some 0, KeysMapsPtr = Some ()\<rparr>"

definition handle1 :: DataStorageRecord where
  "handle1 = \<lparr>Data = Some 1, KeysMapsPtr = Some ()\<rparr>"

definition storage_moved :: storage where
  "storage_moved = projr (DataStorageRecord_SetData handle0 ''id'' (IntV 5) storage_two)"

text \<open>
  The other continuation of the run: after the two \<open>CreateNewRecord\<close> calls,
  \<open>SetData("id", 7)\<close> through the handle of the second record.
\<close>

definition storage_overwritten :: storage where
  "storage_overwritten = projr (DataStorageRecord_SetData handle1 ''id'' (IntV 7) storage_two)"

text \<open>
  The index invariant of the record-reference engine. \<open>table_address\<close> is the address a
  structure stores for a field. \<open>field_indexed\<close>: the record is live and holds a value \<open>v\<close>
  for the field, the field's two tables are declared with \<open>v\<close>'s type and allocated, and in
  each of them the entries of this record are exactly the one entry \<open>(v, record)\<close>.
  \<open>index_invariant\<close>: both structures declare the same fields, no two fields share a table,
  and every live record is indexed so in every declared field.
\<close>

definition table_address :: "DataHashMap \<Rightarrow> string \<Rightarrow> nat option" where
  "table_address S f = (case S f of None \<Rightarrow> None | Some c \<Rightarrow> pointer_after (Ptr c))"

definition field_indexed :: "world \<Rightarrow> DataHashMap \<Rightarrow> DataHashMap \<Rightarrow> nat \<Rightarrow> string \<Rightarrow> bool" where
  "field_indexed w HS MS r f =
     (\<exists>R c v ch cm hp mp HT MT.
        Records w r = Some R \<and> R f = Some c \<and> cell_holds c v \<and>
        HS f = Some ch \<and> cell_holds ch (PtrV (TUnorderedMultimap (type_of v)) (Some hp)) \<and>
        MS f = Some cm \<and> cell_holds cm (PtrV (TMultimap (type_of v)) (Some mp)) \<and>
        HashTables w hp = Some HT \<and> MapTables w mp = Some MT \<and>
        entries_of HT r = {#(v, r)#} \<and> entries_of MT r = {#(v, r)#})"

definition index_invariant :: "world \<Rightarrow> nat \<Rightarrow> nat \<Rightarrow> bool" where
  "index_invariant w hs ms =
     (\<exists>HS MS.
        Structures w hs = Some HS \<and> Structures w ms = Some MS \<and> dom HS = dom MS \<and>
        inj_on (table_address HS) (dom HS) \<and> inj_on (table_address MS) (dom MS) \<and>
        (\<forall>r \<in> dom (Records w). \<forall>f \<in> dom HS. field_indexed w HS MS r f))"

section \<open>Theorems\<close>

subsection \<open>The release callback of a cell\<close>

lemma release_storage_no_invocation: "invocations (release_storage c) = []"
  by (simp add: invocations_def release_storage_def split: option.splits)

text \<open>
  One call consumes at most the callback the cell holds, and leaves one behind only if it
  held one or the call attached one.
\<close>

lemma apply_cell_op_invocations:
  "apply_cell_op c op = (c', evs) \<Longrightarrow>
     length (invocations evs) + (if DeleteFunc c' = None then 0 else 1)
       \<le> (if DeleteFunc c = None then 0 else 1) + (if attaches op then 1 else 0)"
proof (cases op)
  case (OpSetData2 v f)
  then show "apply_cell_op c op = (c', evs) \<Longrightarrow> ?thesis"
    by (cases f) (auto simp: DataSaver_SetData2_def release_storage_no_invocation)
next
  case (OpAssign src)
  then show "apply_cell_op c op = (c', evs) \<Longrightarrow> ?thesis"
    by (auto simp: DataSaver_assign_def release_storage_no_invocation split: option.splits)
qed (auto simp: DataSaver_SetData_def DataSaver_SetData2_def DataSaver_DeleteData_def
       release_storage_no_invocation[unfolded invocations_def] invocations_def
       split: option.splits)

lemma lifetime_bound:
  "length (invocations (lifetime c ops))
     \<le> (if DeleteFunc c = None then 0 else 1) + length (filter attaches ops)"
proof (induction ops arbitrary: c)
  case Nil
  show ?case by (simp add: DataSaver_destroy_def release_storage_no_invocation)
next
  case (Cons op ops)
  obtain c' evs where step: "apply_cell_op c op = (c', evs)" by (cases "apply_cell_op c op")
  have inv_app: "invocations (evs @ lifetime c' ops) = invocations evs @ invocations (lifetime c' ops)"
    by (simp add: invocations_def)
  have one: "length (invocations evs) + (if DeleteFunc c' = None then 0 else 1)
       \<le> (if DeleteFunc c = None then 0 else 1) + (if attaches op then 1 else 0)"
    by (rule apply_cell_op_invocations[OF step])
  have rest: "length (invocations (lifetime c' ops))
       \<le> (if DeleteFunc c' = None then 0 else 1) + length (filter attaches ops)"
    by (rule Cons.IH)
  have "length (invocations (lifetime c (op # ops)))
      = length (invocations evs) + length (invocations (lifetime c' ops))"
    by (simp add: step inv_app)
  also have "\<dots> \<le> (if DeleteFunc c = None then 0 else 1) + (if attaches op then 1 else 0)
      + length (filter attaches ops)"
    using one rest by linarith
  also have "\<dots> = (if DeleteFunc c = None then 0 else 1) + length (filter attaches (op # ops))"
    by simp
  finally show ?case .
qed

text \<open>
  Claim C7. A cell's release callback runs at most once in the cell's life, and only through
  the explicit \<open>DeleteData\<close>: the destructor runs no callback, overwriting the value with
  either \<open>SetData\<close> runs no callback, a second \<open>DeleteData\<close> right after the first does
  nothing at all, one \<open>DeleteData\<close> of the cell, or of a container on the cell's key (which
  also erases the cell), runs at most one callback, and over any sequence of calls
  ended by the destructor the number of callback runs is at most one for the callback the
  cell started with plus one for each later call that attached a callback; so with no
  callback attached again, at most one run.
\<close>

theorem release_callback_at_most_once:
  "invocations (DataSaver_destroy c) = [] \<and>
   invocations (snd (DataSaver_SetData c v)) = [] \<and>
   invocations (snd (DataSaver_SetData2 c v f)) = [] \<and>
   snd (DataSaver_DeleteData (fst (DataSaver_DeleteData c))) = [] \<and>
   length (invocations (snd (DataSaver_DeleteData c))) \<le> 1 \<and>
   length (invocations (snd (DeleteData C key))) \<le> 1 \<and>
   length (invocations (lifetime c ops))
     \<le> (if DeleteFunc c = None then 0 else 1) + length (filter attaches ops)"
  using lifetime_bound[of c ops]
  by (simp add: DataSaver_destroy_def DataSaver_SetData_def DataSaver_SetData2_def
      release_storage_no_invocation DataSaver_DeleteData_def DeleteData_def invocations_def
      release_storage_no_invocation[unfolded invocations_def] split: option.splits)

subsection \<open>Reading and writing through a record reference\<close>

lemmas example_defs = example_world_def example_ref_def example_record0_def example_record1_def
  example_hash_structure_def example_map_structure_def DataSaver_make_def DataSaver_SetData2_def
  DataSaver_default_def cell_holds_def

lemma GetData_holds:
  "C key = Some c \<Longrightarrow> cell_holds c v \<Longrightarrow> T = type_of v \<Longrightarrow> GetData C key T = (True, Some v, [])"
  by (simp add: GetData_def DataSaver_GetData_def cell_holds_def)

lemma SetData_present:
  "C key = Some c \<Longrightarrow>
   SetData C key data = C(key \<mapsto> c\<lparr>Ptr := Some data, DataType := Some (type_of data), DeleteFunc := None\<rparr>)"
  by (simp add: SetData_def SetData2_def DataSaver_SetData2_def)

lemma SetData_absent:
  "C key = None \<Longrightarrow>
   SetData C key data = C(key \<mapsto> \<lparr>Ptr = Some data, DataType = Some (type_of data), DeleteFunc = None\<rparr>)"
  by (simp add: SetData_def SetData2_def AddData2_def DataSaver_copy_def DataSaver_make_def
      DataSaver_SetData2_def DataSaver_assign_def DataSaver_default_def)

lemma SetData_holds: "\<exists>c. SetData C key data key = Some c \<and> cell_holds c data"
  by (cases "C key") (simp_all add: SetData_present SetData_absent cell_holds_def)

lemma SetData_other: "k \<noteq> key \<Longrightarrow> SetData C key data k = C k"
  by (cases "C key") (simp_all add: SetData_present SetData_absent)

lemma RecordRef_SetData_result:
  assumes "DataStorageHashMapStructure ref = Some hs" "DataStorageMapStructure ref = Some ms"
    "DataRecord ref = Some r"
    "Structures w hs = Some HS" "Structures w ms = Some MS" "Records w r = Some R"
    "HS key = Some ch" "cell_holds ch (PtrV (TUnorderedMultimap (type_of data)) (Some hp))"
    "MS key = Some cm" "cell_holds cm (PtrV (TMultimap (type_of data)) (Some mp))"
    "R key = Some c" "cell_holds c old" "type_of old = type_of data"
    "HashTables w hp = Some HT" "MapTables w mp = Some MT"
  shows "RecordRef_SetData ref key data w =
     Inr (True, w\<lparr>HashTables := (HashTables w)(hp \<mapsto> relocate HT old data r),
            MapTables := (MapTables w)(mp \<mapsto> relocate MT old data r),
            Records := (Records w)(r \<mapsto> SetData R key data)\<rparr>)"
proof -
  have 1: "GetData HS key (TPtr (TUnorderedMultimap (type_of data)))
      = (True, Some (PtrV (TUnorderedMultimap (type_of data)) (Some hp)), [])"
    using assms(7,8) by (simp add: GetData_holds)
  have 2: "GetData MS key (TPtr (TMultimap (type_of data)))
      = (True, Some (PtrV (TMultimap (type_of data)) (Some mp)), [])"
    using assms(9,10) by (simp add: GetData_holds)
  have 3: "GetData R key (type_of data) = (True, Some old, [])"
    using assms(11,12,13) by (simp add: GetData_holds)
  show ?thesis
    by (simp add: RecordRef_SetData_def deref_def assms 1 2 3 local_after_def)
qed

lemma GetData_SetData: "GetData (SetData C key data) key (type_of data) = (True, Some data, [])"
  using SetData_holds[of C key data] by (auto simp: GetData_holds)

text \<open>
  Claim C2. When the field is declared in both structures with tables of \<open>data\<close>'s type and
  the record holds a value \<open>old\<close> of that type, \<open>SetData(key, data)\<close> through a ref returns
  true and changes exactly this: in the field's equality table one entry (old, this record)
  is removed and (data, this record) is inserted, the same in the ordering table, and the
  field's cell in the record now holds \<open>data\<close> (with no release callback). Where the record
  had the one entry (old, record) in a table, its only entry afterwards is (data, record):
  the new value is indexed and the old entry is gone.
\<close>

theorem RecordRef_SetData_steps:
  assumes "DataStorageHashMapStructure ref = Some hs" "DataStorageMapStructure ref = Some ms"
    "DataRecord ref = Some r"
    "Structures w hs = Some HS" "Structures w ms = Some MS" "Records w r = Some R"
    "HS key = Some ch" "cell_holds ch (PtrV (TUnorderedMultimap (type_of data)) (Some hp))"
    "MS key = Some cm" "cell_holds cm (PtrV (TMultimap (type_of data)) (Some mp))"
    "R key = Some c" "cell_holds c old" "type_of old = type_of data"
    "HashTables w hp = Some HT" "MapTables w mp = Some MT"
  shows "RecordRef_SetData ref key data w =
     Inr (True,
       w\<lparr>HashTables := (HashTables w)(hp \<mapsto> add_mset (data, r) (HT - {#(old, r)#})),
         MapTables := (MapTables w)(mp \<mapsto> add_mset (data, r) (MT - {#(old, r)#})),
         Records := (Records w)(r \<mapsto>
            R(key \<mapsto> c\<lparr>Ptr := Some data, DataType := Some (type_of data), DeleteFunc := None\<rparr>))\<rparr>)
    \<and> (entries_of HT r = {#(old, r)#} \<longrightarrow>
          entries_of (add_mset (data, r) (HT - {#(old, r)#})) r = {#(data, r)#})
    \<and> (entries_of MT r = {#(old, r)#} \<longrightarrow>
          entries_of (add_mset (data, r) (MT - {#(old, r)#})) r = {#(data, r)#})"
proof -
  have ent: "\<And>M. entries_of M r = {#(old, r)#} \<Longrightarrow>
      entries_of (add_mset (data, r) (M - {#(old, r)#})) r = {#(data, r)#}"
    by (simp add: entries_of_def)
  show ?thesis
    using RecordRef_SetData_result[OF assms] ent assms(11)
    by (simp add: relocate_def SetData_present)
qed

theorem RecordRef_SetData_steps_witness:
  "RecordRef_SetData example_ref ''id'' (IntV 0) example_world =
     Inr (True,
       example_world\<lparr>
         HashTables := (HashTables example_world)
            (0 \<mapsto> add_mset (IntV 0, 0) ({#(IntV (- 1), 0), (IntV 1, 1)#} - {#(IntV (- 1), 0)#})),
         MapTables := (MapTables example_world)
            (0 \<mapsto> add_mset (IntV 0, 0) ({#(IntV (- 1), 0), (IntV 1, 1)#} - {#(IntV (- 1), 0)#})),
         Records := (Records example_world)(0 \<mapsto>
            example_record0(''id'' \<mapsto> (DataSaver_make (IntV (- 1)) None)
              \<lparr>Ptr := Some (IntV 0), DataType := Some (type_of (IntV 0)), DeleteFunc := None\<rparr>))\<rparr>)
   \<and> entries_of (add_mset (IntV 0, 0) ({#(IntV (- 1), 0), (IntV 1, 1)#} - {#(IntV (- 1), 0)#})) 0
       = {#(IntV 0, 0)#}"
proof -
  have inst: "RecordRef_SetData example_ref ''id'' (IntV 0) example_world =
     Inr (True,
       example_world\<lparr>
         HashTables := (HashTables example_world)
            (0 \<mapsto> add_mset (IntV 0, 0) ({#(IntV (- 1), 0), (IntV 1, 1)#} - {#(IntV (- 1), 0)#})),
         MapTables := (MapTables example_world)
            (0 \<mapsto> add_mset (IntV 0, 0) ({#(IntV (- 1), 0), (IntV 1, 1)#} - {#(IntV (- 1), 0)#})),
         Records := (Records example_world)(0 \<mapsto>
            example_record0(''id'' \<mapsto> (DataSaver_make (IntV (- 1)) None)
              \<lparr>Ptr := Some (IntV 0), DataType := Some (type_of (IntV 0)), DeleteFunc := None\<rparr>))\<rparr>)
    \<and> (entries_of {#(IntV (- 1), 0), (IntV 1, 1)#} 0 = {#(IntV (- 1), 0)#} \<longrightarrow>
         entries_of (add_mset (IntV 0, 0) ({#(IntV (- 1), 0), (IntV 1, 1)#} - {#(IntV (- 1), 0)#})) 0
           = {#(IntV 0, 0)#})
    \<and> (entries_of {#(IntV (- 1), 0), (IntV 1, 1)#} 0 = {#(IntV (- 1), 0)#} \<longrightarrow>
         entries_of (add_mset (IntV 0, 0) ({#(IntV (- 1), 0), (IntV 1, 1)#} - {#(IntV (- 1), 0)#})) 0
           = {#(IntV 0, 0)#})"
    by (rule RecordRef_SetData_steps[where hs = 0 and ms = 1 and HS = example_hash_structure
          and MS = example_map_structure and hp = 0 and mp = 0
          and ch = "DataSaver_make (PtrV (TUnorderedMultimap TInt) (Some 0)) (Some delete_table)"
          and cm = "DataSaver_make (PtrV (TMultimap TInt) (Some 0)) (Some delete_table)"])
      (simp_all add: example_defs)
  have before: "entries_of {#(IntV (- 1), 0), (IntV 1, 1)#} 0 = {#(IntV (- 1), 0)#}"
    by (simp add: entries_of_def)
  from inst before show ?thesis by blast
qed

text \<open>
  Claim C8. Round trip: when \<open>SetData(f, v)\<close> through a ref returns true, \<open>GetData(f, out)\<close>
  with \<open>out\<close> of \<open>v\<close>'s type, through any ref to the same record, returns true, writes
  exactly \<open>v\<close> to \<open>out\<close> and prints nothing.
\<close>

theorem SetData_GetData_roundtrip:
  assumes "RecordRef_SetData ref f v w = Inr (True, w')" and "DataRecord ref' = DataRecord ref"
  shows "RecordRef_GetData ref' f (type_of v) w' = Inr (True, Some v, [])"
  using assms
  by (auto simp: RecordRef_SetData_def RecordRef_GetData_def deref_def GetData_SetData
      split: sum.splits prod.splits option.splits if_splits)

theorem SetData_GetData_roundtrip_witness:
  "RecordRef_SetData example_ref ''name'' (StrV ''mrognor'') example_world
     = Inr (True, example_world_renamed)
   \<and> DataRecord example_ref_again = DataRecord example_ref
   \<and> RecordRef_GetData example_ref_again ''name'' (type_of (StrV ''mrognor'')) example_world_renamed
     = Inr (True, Some (StrV ''mrognor''), [])"
proof -
  have call: "RecordRef_SetData example_ref ''name'' (StrV ''mrognor'') example_world
     = Inr (True, example_world_renamed)"
    unfolding example_world_renamed_def
    by (rule RecordRef_SetData_result[where hs = 0 and ms = 1 and HS = example_hash_structure
          and MS = example_map_structure and hp = 1 and mp = 1
          and ch = "DataSaver_make (PtrV (TUnorderedMultimap TString) (Some 1)) (Some delete_table)"
          and cm = "DataSaver_make (PtrV (TMultimap TString) (Some 1)) (Some delete_table)"
          and c = "DataSaver_make (StrV '''') None"])
      (simp_all add: example_defs)
  have same: "DataRecord example_ref_again = DataRecord example_ref"
    by (simp add: example_ref_again_def example_ref_def)
  from call same SetData_GetData_roundtrip[OF call same] show ?thesis by simp
qed

text \<open>
  Claim C4 (code defect). The class comment of the ref says that once the record is deleted
  "any attempt to access or change the data will be ignored"; \<open>SetData\<close> and \<open>GetData\<close> never
  read the validity flag. On a ref whose record was destroyed (flag false, storage released)
  both dereference the dangling record pointer; with the flag already false and the storage
  not yet released, \<open>GetData\<close> reads the record and \<open>SetData\<close> rewrites both tables and the
  record and returns true.
\<close>

theorem invalid_ref_is_not_ignored:
  "RecordRef_IsValid example_ref destroyed_world = False
   \<and> RecordRef_GetData example_ref ''id'' TInt destroyed_world = Inl UseAfterFree
   \<and> RecordRef_SetData example_ref ''id'' (IntV 5) destroyed_world = Inl UseAfterFree
   \<and> RecordRef_IsValid example_ref flag_cleared_world = False
   \<and> RecordRef_GetData example_ref ''id'' TInt flag_cleared_world = Inr (True, Some (IntV (- 1)), [])
   \<and> RecordRef_SetData example_ref ''id'' (IntV 5) flag_cleared_world
       = Inr (True, flag_cleared_world\<lparr>
           HashTables := (HashTables flag_cleared_world)(0 \<mapsto> {#(IntV 5, 0), (IntV 1, 1)#}),
           MapTables := (MapTables flag_cleared_world)(0 \<mapsto> {#(IntV 5, 0), (IntV 1, 1)#}),
           Records := (Records flag_cleared_world)
              (0 \<mapsto> SetData example_record0 ''id'' (IntV 5))\<rparr>)"
proof -
  have a: "RecordRef_IsValid example_ref destroyed_world = False"
    by (simp add: RecordRef_IsValid_def destroyed_world_def example_defs)
  have b: "RecordRef_GetData example_ref ''id'' TInt destroyed_world = Inl UseAfterFree"
    by (simp add: RecordRef_GetData_def deref_def destroyed_world_def example_defs)
  have c: "RecordRef_SetData example_ref ''id'' (IntV 5) destroyed_world = Inl UseAfterFree"
    by (simp add: RecordRef_SetData_def deref_def destroyed_world_def example_defs GetData_def
        DataSaver_GetData_def)
  have d: "RecordRef_IsValid example_ref flag_cleared_world = False"
    by (simp add: RecordRef_IsValid_def flag_cleared_world_def example_defs)
  have e: "RecordRef_GetData example_ref ''id'' TInt flag_cleared_world = Inr (True, Some (IntV (- 1)), [])"
    by (simp add: RecordRef_GetData_def deref_def flag_cleared_world_def example_defs GetData_def
        DataSaver_GetData_def)
  have t: "relocate {#(IntV (- 1), 0), (IntV 1, 1)#} (IntV (- 1)) (IntV 5) 0 = {#(IntV 5, 0), (IntV 1, 1)#}"
    by (simp add: relocate_def)
  have f: "RecordRef_SetData example_ref ''id'' (IntV 5) flag_cleared_world
       = Inr (True, flag_cleared_world\<lparr>
           HashTables := (HashTables flag_cleared_world)(0 \<mapsto> {#(IntV 5, 0), (IntV 1, 1)#}),
           MapTables := (MapTables flag_cleared_world)(0 \<mapsto> {#(IntV 5, 0), (IntV 1, 1)#}),
           Records := (Records flag_cleared_world)
              (0 \<mapsto> SetData example_record0 ''id'' (IntV 5))\<rparr>)"
    unfolding t[symmetric]
    by (rule RecordRef_SetData_result[where hs = 0 and ms = 1 and HS = example_hash_structure
          and MS = example_map_structure and hp = 0 and mp = 0
          and ch = "DataSaver_make (PtrV (TUnorderedMultimap TInt) (Some 0)) (Some delete_table)"
          and cm = "DataSaver_make (PtrV (TMultimap TInt) (Some 0)) (Some delete_table)"
          and c = "DataSaver_make (IntV (- 1)) None"])
      (simp_all add: example_defs flag_cleared_world_def)
  from a b c d e f show ?thesis by blast
qed

subsection \<open>Type mismatch on reading\<close>




subsection \<open>SetData of a keyed container\<close>

text \<open>
  Claim C6, as stated, fails in its last part: a cell with release callback 7 has none after
  \<open>SetData(key, data)\<close>.
\<close>

theorem SetData_drops_callback:
  "DeleteFunc (the ([''k'' \<mapsto> DataSaver_make (IntV 1) (Some 7)] ''k'')) = Some 7
   \<and> DeleteFunc (the (SetData [''k'' \<mapsto> DataSaver_make (IntV 1) (Some 7)] ''k'' (IntV 2) ''k'')) = None"
  by (simp add: SetData_def SetData2_def DataSaver_make_def DataSaver_SetData2_def DataSaver_default_def)

lemma multi_find_update:
  "multi_find M key = Some c \<Longrightarrow> multi_find (multi_update M key c') key = Some c'"
  by (induction M) (auto split: if_splits)

lemma multi_update_length: "length (multi_update M key c') = length M"
  by (induction M) auto

lemma multi_emplace_absent: "multi_find M key = None \<Longrightarrow> multi_emplace M key c' = M @ [(key, c')]"
  by (induction M) (auto split: if_splits)

lemma multi_find_emplace: "multi_find (multi_emplace M key c') key = Some c'"
  by (induction M) auto

text \<open>
  Claim C6, amended. In both containers \<open>SetData\<close> adds a cell holding \<open>data\<close> when the key
  is absent and otherwise overwrites the cell found for the key in place (the multi-key
  container keeps its number of elements); the cell's release callback afterwards is the one
  passed to the call, and none when the call passes none: the previous callback is replaced,
  not kept.
\<close>

theorem SetData_adds_or_overwrites:
  "SetData C key data =
     (case C key of
        None \<Rightarrow> C(key \<mapsto> \<lparr>Ptr = Some data, DataType = Some (type_of data), DeleteFunc = None\<rparr>)
      | Some c \<Rightarrow> C(key \<mapsto> c\<lparr>Ptr := Some data, DataType := Some (type_of data), DeleteFunc := None\<rparr>))
   \<and> SetData2 C key data f =
     (case C key of
        None \<Rightarrow> C(key \<mapsto> \<lparr>Ptr = Some data, DataType = Some (type_of data), DeleteFunc = f\<rparr>)
      | Some c \<Rightarrow> C(key \<mapsto> c\<lparr>Ptr := Some data, DataType := Some (type_of data), DeleteFunc := f\<rparr>))
   \<and> Multi_SetData M key data =
     (case multi_find M key of
        None \<Rightarrow> M @ [(key, \<lparr>Ptr = Some data, DataType = Some (type_of data), DeleteFunc = None\<rparr>)]
      | Some c \<Rightarrow> multi_update M key
           (c\<lparr>Ptr := Some data, DataType := Some (type_of data), DeleteFunc := None\<rparr>))
   \<and> Multi_SetData2 M key data f =
     (case multi_find M key of
        None \<Rightarrow> M @ [(key, \<lparr>Ptr = Some data, DataType = Some (type_of data), DeleteFunc = f\<rparr>)]
      | Some c \<Rightarrow> multi_update M key
           (c\<lparr>Ptr := Some data, DataType := Some (type_of data), DeleteFunc := f\<rparr>))
   \<and> length (multi_update M key c') = length M"
  by (simp add: SetData_def SetData2_def AddData2_def Multi_SetData_def Multi_SetData2_def
      Multi_AddData2_def multi_emplace_absent DataSaver_copy_def DataSaver_make_def
      DataSaver_SetData2_def DataSaver_assign_def DataSaver_default_def multi_update_length
      split: option.splits)

subsection \<open>The example run of the storage of DataStorage.cpp\<close>

lemmas cell_defs = DataSaver_make_def DataSaver_SetData2_def DataSaver_default_def
  DataSaver_copy_def DataSaver_assign_def

lemmas container_defs = AddData_def AddData2_def SetData_def SetData2_def GetData_def
  DataSaver_GetData_def DeleteData_def DataSaver_DeleteData_def

lemma storage_id_eq:
  "storage_id = \<lparr>RecordTemplate = [''id'' \<mapsto> DataSaver_make (IntV (- 1)) None],
     KeysMaps = [''id'' \<mapsto> DataSaver_make (PtrV (TUnorderedMap TInt) (Some 0)) (Some delete_table)],
     DataStorageRecordFillers = [(''id'', 0, IntV (- 1))], RecordsList = [],
     RecordHeap = Map.empty, IndexHeap = [0 \<mapsto> []], Printed = []\<rparr>"
  by (simp add: storage_id_def AddParam_def DataStorage_init_def container_defs cell_defs
      fillers_emplace_def)

lemma copy_template: "copy_container [''id'' \<mapsto> DataSaver_make (IntV (- 1)) None]
   = [''id'' \<mapsto> DataSaver_make (IntV (- 1)) None]"
  by (rule ext) (simp add: copy_container_def cell_defs)

lemma create_one:
  "CreateNewRecord storage_id 0 = Inr (handle0,
     storage_id\<lparr>RecordHeap := [0 \<mapsto> [''id'' \<mapsto> DataSaver_make (IntV (- 1)) None]],
       RecordsList := [0], IndexHeap := [0 \<mapsto> [(IntV (- 1), 0)]]\<rparr>)"
  by (simp add: storage_id_eq CreateNewRecord_def umap_emplace_def handle0_def copy_template)

lemma storage_one_eq:
  "storage_one = storage_id\<lparr>RecordHeap := [0 \<mapsto> [''id'' \<mapsto> DataSaver_make (IntV (- 1)) None]],
       RecordsList := [0], IndexHeap := [0 \<mapsto> [(IntV (- 1), 0)]]\<rparr>"
  using create_one by (simp add: storage_one_def created_def)

lemma create_two:
  "CreateNewRecord storage_one 1 = Inr (handle1,
     storage_id\<lparr>RecordHeap := [0 \<mapsto> [''id'' \<mapsto> DataSaver_make (IntV (- 1)) None],
                              1 \<mapsto> [''id'' \<mapsto> DataSaver_make (IntV (- 1)) None]],
       RecordsList := [0, 1], IndexHeap := [0 \<mapsto> [(IntV (- 1), 0)]]\<rparr>)"
  by (simp add: storage_one_eq storage_id_eq CreateNewRecord_def umap_emplace_def handle1_def copy_template)

lemma storage_two_eq:
  "storage_two = storage_id\<lparr>RecordHeap := [0 \<mapsto> [''id'' \<mapsto> DataSaver_make (IntV (- 1)) None],
                              1 \<mapsto> [''id'' \<mapsto> DataSaver_make (IntV (- 1)) None]],
       RecordsList := [0, 1], IndexHeap := [0 \<mapsto> [(IntV (- 1), 0)]]\<rparr>"
  using create_two by (simp add: storage_two_def created_def)

lemma set_moved:
  "DataStorageRecord_SetData handle0 ''id'' (IntV 5) storage_two = Inr
    (storage_id\<lparr>RecordHeap := [0 \<mapsto> [''id'' \<mapsto> DataSaver_make (IntV 5) None],
                              1 \<mapsto> [''id'' \<mapsto> DataSaver_make (IntV (- 1)) None]],
       RecordsList := [0, 1], IndexHeap := [0 \<mapsto> [(IntV 5, 0)]]\<rparr>)"
  apply (simp add: storage_two_eq storage_id_eq DataStorageRecord_SetData_def handle0_def
      container_defs cell_defs deref_def local_after_def umap_find_def umap_erase_def umap_emplace_def)
  apply (rule ext)
  apply simp
  done

lemma storage_moved_eq:
  "storage_moved = storage_id\<lparr>RecordHeap := [0 \<mapsto> [''id'' \<mapsto> DataSaver_make (IntV 5) None],
                              1 \<mapsto> [''id'' \<mapsto> DataSaver_make (IntV (- 1)) None]],
       RecordsList := [0, 1], IndexHeap := [0 \<mapsto> [(IntV 5, 0)]]\<rparr>"
  using set_moved by (simp add: storage_moved_def)

lemma set_overwritten:
  "DataStorageRecord_SetData handle1 ''id'' (IntV 7) storage_two = Inr
    (storage_id\<lparr>RecordHeap := [0 \<mapsto> [''id'' \<mapsto> DataSaver_make (IntV 7) None],
                              1 \<mapsto> [''id'' \<mapsto> DataSaver_make (IntV 7) None]],
       RecordsList := [0, 1], IndexHeap := [0 \<mapsto> [(IntV 7, 1)]]\<rparr>)"
  by (simp add: storage_two_eq storage_id_eq DataStorageRecord_SetData_def handle1_def
      container_defs cell_defs deref_def local_after_def umap_find_def umap_erase_def umap_emplace_def)

lemma storage_overwritten_eq:
  "storage_overwritten = storage_id\<lparr>RecordHeap := [0 \<mapsto> [''id'' \<mapsto> DataSaver_make (IntV 7) None],
                              1 \<mapsto> [''id'' \<mapsto> DataSaver_make (IntV 7) None]],
       RecordsList := [0, 1], IndexHeap := [0 \<mapsto> [(IntV 7, 1)]]\<rparr>"
  using set_overwritten by (simp add: storage_overwritten_def)

subsection \<open>Looking a record up by a field's value\<close>

text \<open>
  Claim C5 (code defect). After \<open>AddParam("id", -1)\<close>, two \<open>CreateNewRecord\<close> calls and
  \<open>SetData("id", 5)\<close> on the first record, the second record holds \<open>id = -1\<close>, and
  \<open>GetRecord("id", -1, ref)\<close> returns false and leaves \<open>ref\<close> as it was: \<open>GetRecord\<close> reads
  the field's index table, and the second record was never entered there, because the
  \<open>emplace\<close> of the filler in \<open>CreateNewRecord\<close> inserts nothing under a value that is
  already registered. In this state the storage's own \<open>SetData\<close> through the handle of the
  second record dereferences the end iterator that \<open>find(oldData)\<close> returns.
\<close>

theorem GetRecord_misses_held_value:
  "DataStorageRecord_SetData handle0 ''id'' (IntV 5) storage_two = Inr storage_moved
   \<and> DataStorageRecord_GetData handle1 ''id'' TInt storage_moved = Inr (True, Some (IntV (- 1)), [])
   \<and> GetRecord storage_moved ''id'' (IntV (- 1)) handle0 = Inr (False, handle0, [])
   \<and> DataStorageRecord_SetData handle1 ''id'' (IntV 7) storage_moved = Inl EndIteratorDeref"
proof -
  have a: "DataStorageRecord_SetData handle0 ''id'' (IntV 5) storage_two = Inr storage_moved"
    using set_moved by (simp add: storage_moved_eq)
  have b: "DataStorageRecord_GetData handle1 ''id'' TInt storage_moved = Inr (True, Some (IntV (- 1)), [])"
    by (simp add: storage_moved_eq storage_id_eq DataStorageRecord_GetData_def handle1_def deref_def
        container_defs cell_defs)
  have c: "GetRecord storage_moved ''id'' (IntV (- 1)) handle0 = Inr (False, handle0, [])"
    by (simp add: storage_moved_eq storage_id_eq GetRecord_def deref_def umap_find_def
        container_defs cell_defs)
  have d: "DataStorageRecord_SetData handle1 ''id'' (IntV 7) storage_moved = Inl EndIteratorDeref"
    by (simp add: storage_moved_eq storage_id_eq DataStorageRecord_SetData_def handle1_def
        container_defs cell_defs deref_def local_after_def umap_find_def)
  from a b c d show ?thesis by (intro conjI)
qed

lemma map_of_registered: "map_of idx v = Some r \<Longrightarrow> \<exists>rest. registered idx v = r # rest"
  by (induction idx) (auto simp: registered_def split: if_splits)

lemma map_of_None_registered: "map_of idx v = None \<Longrightarrow> registered idx v = []"
  by (induction idx) (auto simp: registered_def split: if_splits)

lemma registered_Nil_map_of: "registered idx v = [] \<Longrightarrow> map_of idx v = None"
  by (induction idx) (auto simp: registered_def split: if_splits)

text \<open>
  What \<open>GetRecord\<close> itself does, in terms of the field's index table: false and an unchanged
  handle for a name that is not declared; for a declared field with a table of the value's
  type, false and an unchanged handle if the table registers no record under the value, and
  otherwise true with the handle bound to the registered record and to the index tables.
\<close>

lemma GetRecord_outcomes:
  "(KeysMaps s name = None \<longrightarrow> GetRecord s name v fr = Inr (False, fr, []))
   \<and> (KeysMaps s name = Some c
        \<and> cell_holds c (PtrV (TUnorderedMap (type_of v)) (Some p))
        \<and> IndexHeap s p = Some idx \<longrightarrow>
        (registered idx v = [] \<longrightarrow> GetRecord s name v fr = Inr (False, fr, []))
      \<and> (\<forall>r rest. registered idx v = r # rest \<longrightarrow>
            GetRecord s name v fr = Inr (True, fr\<lparr>Data := Some r, KeysMapsPtr := Some ()\<rparr>, [])))"
proof -
  have undeclared: "KeysMaps s name = None \<Longrightarrow> GetRecord s name v fr = Inr (False, fr, [])"
    by (simp add: GetRecord_def GetData_def)
  have declared: "GetRecord s name v fr =
      (case umap_find idx v of
         Some r \<Rightarrow> Inr (True, fr\<lparr>Data := Some r, KeysMapsPtr := Some ()\<rparr>, [])
       | None \<Rightarrow> Inr (False, fr, []))"
    if "KeysMaps s name = Some c" "cell_holds c (PtrV (TUnorderedMap (type_of v)) (Some p))"
      "IndexHeap s p = Some idx"
    using that by (simp add: GetRecord_def GetData_def DataSaver_GetData_def cell_holds_def deref_def)
  have miss: "registered idx v = [] \<Longrightarrow> umap_find idx v = None"
    by (simp add: umap_find_def registered_Nil_map_of)
  have hit: "\<And>r rest. registered idx v = r # rest \<Longrightarrow> umap_find idx v = Some r"
  proof -
    fix r rest assume reg: "registered idx v = r # rest"
    show "umap_find idx v = Some r"
    proof (cases "map_of idx v")
      case None
      with reg show ?thesis by (simp add: map_of_None_registered)
    next
      case (Some q)
      with reg map_of_registered[of idx v q] show ?thesis by (auto simp: umap_find_def)
    qed
  qed
  show ?thesis using undeclared declared miss hit by auto
qed

subsection \<open>A field name that was never declared\<close>

text \<open>
  Claim C9 (code defect). For a field name absent from the schema, \<open>GetRecord\<close>, both
  \<open>GetData\<close> paths and \<open>DataStorageRecordRef::SetData\<close> return false and change nothing.
  \<open>DataStorageRecord::SetData\<close> of DataStorage.cpp returns \<open>void\<close>, does not look at what
  \<open>KeysMaps->GetData\<close> returned, and calls \<open>find\<close> through the table pointer that is still
  \<open>nullptr\<close>.
\<close>

theorem SetData_undeclared_field_dereferences_null:
  "KeysMaps storage_one ''age'' = None
   \<and> DataStorageRecord_SetData handle0 ''age'' (IntV 5) storage_one = Inl NullDeref
   \<and> DataStorageRecord_SetData handle0 ''age'' (StrV ''x'') storage_one = Inl NullDeref
   \<and> DataStorageRecord_GetData handle0 ''age'' TInt storage_one = Inr (False, None, [])
   \<and> GetRecord storage_one ''age'' (IntV 5) handle0 = Inr (False, handle0, [])
   \<and> example_hash_structure ''age'' = None
   \<and> RecordRef_SetData example_ref ''age'' (IntV 5) example_world = Inr (False, example_world)
   \<and> RecordRef_GetData example_ref ''age'' TInt example_world = Inr (False, None, [])"
  by (simp add: storage_one_eq storage_id_eq DataStorageRecord_SetData_def
      DataStorageRecord_GetData_def GetRecord_def RecordRef_SetData_def RecordRef_GetData_def
      handle0_def deref_def local_after_def container_defs cell_defs example_defs)

subsection \<open>The unique-keyed index of DataStorage.cpp\<close>

lemma registered_append: "registered (xs @ ys) v = registered xs v @ registered ys v"
  by (simp add: registered_def)

lemma registered_emplace:
  assumes "\<And>v. length (registered idx v) \<le> 1"
  shows "length (registered (umap_emplace idx k p) v) \<le> 1"
proof (cases "map_of idx k")
  case None
  then have none: "registered idx k = []" by (rule map_of_None_registered)
  have split: "registered (umap_emplace idx k p) v = registered idx v @ (if k = v then [p] else [])"
    using None by (simp add: umap_emplace_def registered_append) (simp add: registered_def)
  show ?thesis
  proof (cases "k = v")
    case True
    with none split show ?thesis by simp
  next
    case False
    with split assms[of v] show ?thesis by simp
  qed
next
  case (Some q)
  with assms[of v] show ?thesis by (simp add: umap_emplace_def)
qed

lemma registered_erase: "length (registered (umap_erase idx k) v) \<le> length (registered idx v)"
  by (induction idx) (auto simp: registered_def umap_erase_def)

lemma run_fillers_unique:
  "run_fillers F newRecord H = Inr H' \<Longrightarrow>
   (\<And>a idx v. H a = Some idx \<Longrightarrow> length (registered idx v) \<le> 1) \<Longrightarrow>
   H' a = Some idx \<Longrightarrow> length (registered idx v) \<le> 1"
proof (induction F newRecord H arbitrary: a idx v rule: run_fillers.induct)
  case (1 newRecord H)
  then show ?case by simp
next
  case (2 name pointer dflt rest newRecord H)
  from "2.prems"(1) obtain idx0 where at: "H pointer = Some idx0"
    and run: "run_fillers rest newRecord (H(pointer \<mapsto> umap_emplace idx0 dflt newRecord)) = Inr H'"
    by (auto split: option.splits)
  have step: "\<And>a idx v. (H(pointer \<mapsto> umap_emplace idx0 dflt newRecord)) a = Some idx
      \<Longrightarrow> length (registered idx v) \<le> 1"
  proof -
    fix a idx v
    assume "(H(pointer \<mapsto> umap_emplace idx0 dflt newRecord)) a = Some idx"
    then show "length (registered idx v) \<le> 1"
      using "2.prems"(2)[of a idx v] "2.prems"(2)[OF at] registered_emplace[of idx0 dflt newRecord v]
      by (auto split: if_splits)
  qed
  show ?case
    by (rule "2.IH"[OF at run step "2.prems"(3)])
qed

lemma AddParam_unique: "unique_keys s \<Longrightarrow> unique_keys (AddParam s paramName dflt pointer)"
  by (auto simp: unique_keys_def AddParam_def registered_def split: if_splits)

lemma CreateNewRecord_unique:
  assumes "unique_keys s" and "CreateNewRecord s newData = Inr (h, s')"
  shows "unique_keys s'"
proof -
  from assms(2) obtain H where run: "run_fillers (DataStorageRecordFillers s) newData (IndexHeap s) = Inr H"
    and heap: "IndexHeap s' = H"
    by (auto simp: CreateNewRecord_def split: sum.splits)
  show ?thesis
    unfolding unique_keys_def heap
    using run_fillers_unique[OF run] assms(1)[unfolded unique_keys_def] by blast
qed

lemma SetData_unique:
  assumes "unique_keys s" and "DataStorageRecord_SetData h key data s = Inr s'"
  shows "unique_keys s'"
proof -
  from assms(2) obtain a idx oldData where at: "IndexHeap s a = Some idx"
    and heap: "IndexHeap s' = (IndexHeap s)(a \<mapsto> umap_emplace (umap_erase idx oldData) data (the (Data h)))"
    by (auto simp: DataStorageRecord_SetData_def deref_def
        split: sum.splits option.splits prod.splits)
  have erased: "\<And>v. length (registered (umap_erase idx oldData) v) \<le> 1"
    using registered_erase[of idx oldData] assms(1)[unfolded unique_keys_def] at
    by (meson le_trans)
  show ?thesis
    unfolding unique_keys_def heap
    using registered_emplace[OF erased] assms(1)[unfolded unique_keys_def]
    by (auto split: if_splits)
qed

lemma emplace_skips: "umap_find idx v = Some q \<Longrightarrow> umap_emplace idx v p = idx"
  by (simp add: umap_find_def umap_emplace_def)

lemma GetRecord_unique:
  assumes "unique_keys s" and "GetRecord s paramName paramValue fr = Inr (True, fr', out)"
  shows "\<exists>a idx r. IndexHeap s a = Some idx \<and> registered idx paramValue = [r] \<and> Data fr' = Some r"
proof -
  from assms(2) obtain a idx r where at: "IndexHeap s a = Some idx"
    and found: "map_of idx paramValue = Some r" and bound: "Data fr' = Some r"
    by (auto simp: GetRecord_def deref_def umap_find_def
        split: sum.splits option.splits prod.splits if_splits)
  from map_of_registered[OF found] obtain rest where reg: "registered idx paramValue = r # rest"
    by blast
  from assms(1) at have "length (registered idx paramValue) \<le> 1"
    by (auto simp: unique_keys_def)
  with reg have "registered idx paramValue = [r]" by simp
  with at bound show ?thesis by blast
qed

text \<open>
  Claim C10. In the storage of DataStorage.cpp every index table registers at most one record
  under a value: this holds in the empty storage and is preserved by \<open>AddParam\<close>, by
  \<open>CreateNewRecord\<close> and by \<open>DataStorageRecord::SetData\<close> whenever they return; \<open>emplace\<close> on
  a value that is already registered leaves the table as it is (the insertion is skipped
  without notice); and when \<open>GetRecord\<close> returns true, the record it binds is the only one
  registered under the value in some table of the storage.
\<close>

theorem equality_index_is_unique_keyed:
  "unique_keys DataStorage_init
   \<and> (unique_keys s \<longrightarrow> unique_keys (AddParam s paramName dflt pointer))
   \<and> (unique_keys s \<and> CreateNewRecord s newData = Inr (h', s') \<longrightarrow> unique_keys s')
   \<and> (unique_keys s \<and> DataStorageRecord_SetData h key data s = Inr s'' \<longrightarrow> unique_keys s'')
   \<and> (umap_find idx v = Some q \<longrightarrow> umap_emplace idx v p = idx)
   \<and> (unique_keys s \<and> GetRecord s paramName paramValue fr = Inr (True, fr', out) \<longrightarrow>
        (\<exists>a idx r. IndexHeap s a = Some idx \<and> registered idx paramValue = [r] \<and> Data fr' = Some r))"
proof -
  have init: "unique_keys DataStorage_init"
    by (simp add: unique_keys_def DataStorage_init_def)
  have add: "unique_keys s \<longrightarrow> unique_keys (AddParam s paramName dflt pointer)"
    by (simp add: AddParam_unique)
  have create: "unique_keys s \<and> CreateNewRecord s newData = Inr (h', s') \<longrightarrow> unique_keys s'"
    using CreateNewRecord_unique[of s newData h' s'] by blast
  have set: "unique_keys s \<and> DataStorageRecord_SetData h key data s = Inr s'' \<longrightarrow> unique_keys s''"
    using SetData_unique[of s h key data s''] by blast
  have skip: "umap_find idx v = Some q \<longrightarrow> umap_emplace idx v p = idx"
    by (simp add: emplace_skips)
  have get: "unique_keys s \<and> GetRecord s paramName paramValue fr = Inr (True, fr', out) \<longrightarrow>
        (\<exists>a idx r. IndexHeap s a = Some idx \<and> registered idx paramValue = [r] \<and> Data fr' = Some r)"
    using GetRecord_unique[of s paramName paramValue fr fr' out] by blast
  from init add create set skip get show ?thesis by (intro conjI)
qed

theorem equality_index_is_unique_keyed_witness:
  "unique_keys DataStorage_init
   \<and> unique_keys storage_id
   \<and> CreateNewRecord storage_id 0 = Inr (handle0, storage_one)
   \<and> unique_keys storage_one
   \<and> CreateNewRecord storage_one 1 = Inr (handle1, storage_two)
   \<and> unique_keys storage_two
   \<and> IndexHeap storage_two 0 = Some [(IntV (- 1), 0)]
   \<and> DataStorageRecord_SetData handle0 ''id'' (IntV 5) storage_two = Inr storage_moved
   \<and> unique_keys storage_moved
   \<and> umap_find [(IntV (- 1), 0)] (IntV (- 1)) = Some 0
   \<and> umap_emplace [(IntV (- 1), 0)] (IntV (- 1)) 1 = [(IntV (- 1), 0)]
   \<and> GetRecord storage_two ''id'' (IntV (- 1)) handle1 = Inr (True, handle0, [])
   \<and> registered [(IntV (- 1), 0)] (IntV (- 1)) = [0]"
proof -
  have c1: "CreateNewRecord storage_id 0 = Inr (handle0, storage_one)"
    using create_one by (simp add: storage_one_eq)
  have c2: "CreateNewRecord storage_one 1 = Inr (handle1, storage_two)"
    using create_two by (simp add: storage_two_eq)
  have m: "DataStorageRecord_SetData handle0 ''id'' (IntV 5) storage_two = Inr storage_moved"
    using set_moved by (simp add: storage_moved_eq)
  have f: "umap_find [(IntV (- 1), 0::nat)] (IntV (- 1)) = Some 0"
    by (simp add: umap_find_def)
  have g: "GetRecord storage_two ''id'' (IntV (- 1)) handle1 = Inr (True, handle0, [])"
    by (simp add: storage_two_eq storage_id_eq GetRecord_def deref_def umap_find_def
        handle0_def handle1_def container_defs cell_defs)
  have t: "IndexHeap storage_two 0 = Some [(IntV (- 1), 0)]"
    by (simp add: storage_two_eq)
  have u0: "unique_keys DataStorage_init"
    using equality_index_is_unique_keyed[of DataStorage_init] by blast
  have u1: "unique_keys storage_id"
    using equality_index_is_unique_keyed[where s = DataStorage_init and paramName = "''id''" and dflt = "IntV (- 1)"
        and pointer = 0] by (simp add: storage_id_def)
  have u2: "unique_keys storage_one"
    using equality_index_is_unique_keyed[where s = storage_id and newData = 0 and h' = handle0 and s' = storage_one] u1 c1
    by blast
  have u3: "unique_keys storage_two"
    using equality_index_is_unique_keyed[where s = storage_one and newData = 1 and h' = handle1 and s' = storage_two] u2 c2
    by blast
  have u4: "unique_keys storage_moved"
    using equality_index_is_unique_keyed[where s = storage_two and h = handle0 and key = "''id''" and data = "IntV 5"
        and s'' = storage_moved] u3 m
    by blast
  have e: "umap_emplace [(IntV (- 1), 0)] (IntV (- 1)) 1 = [(IntV (- 1), 0)]"
    using equality_index_is_unique_keyed[where idx = "[(IntV (- 1), 0)]" and v = "IntV (- 1)" and q = 0 and p = 1] f
    by blast
  have r: "registered [(IntV (- 1), 0::nat)] (IntV (- 1)) = [0]"
    by (simp add: registered_def)
  from u0 u1 c1 u2 c2 u3 t m u4 f e g r show ?thesis by (intro conjI)
qed

subsection \<open>Index and record contents\<close>

lemma entries_relocate_same:
  "entries_of M r = {#(v, r)#} \<Longrightarrow> entries_of (relocate M v d r) r = {#(d, r)#}"
  by (simp add: entries_of_def relocate_def)

lemma entries_relocate_other:
  "r' \<noteq> r \<Longrightarrow> entries_of (relocate M v d r) r' = entries_of M r'"
  by (simp add: entries_of_def relocate_def)

lemma index_invariant_Cout: "index_invariant (w\<lparr>Cout := x\<rparr>) hs ms = index_invariant w hs ms"
  by (simp add: index_invariant_def field_indexed_def)

lemma table_address_holds:
  "S f = Some c \<Longrightarrow> cell_holds c (PtrV t (Some a)) \<Longrightarrow> table_address S f = Some a"
  by (simp add: table_address_def cell_holds_def)

lemma field_indexed_preserved:
  assumes HSk: "HS key = Some ch" and chh: "cell_holds ch (PtrV (TUnorderedMultimap (type_of data)) (Some hp))"
    and MSk: "MS key = Some cm" and cmh: "cell_holds cm (PtrV (TMultimap (type_of data)) (Some mp))"
    and rec: "Records w r = Some R"
    and HT: "HashTables w hp = Some HT" and MT: "MapTables w mp = Some MT"
    and own: "entries_of HT r = {#(old, r)#}" "entries_of MT r = {#(old, r)#}"
    and injH: "inj_on (table_address HS) (dom HS)" and injM: "inj_on (table_address MS) (dom MS)"
    and w': "w' = w\<lparr>HashTables := (HashTables w)(hp \<mapsto> relocate HT old data r),
            MapTables := (MapTables w)(mp \<mapsto> relocate MT old data r),
            Records := (Records w)(r \<mapsto> SetData R key data)\<rparr>"
    and before: "field_indexed w HS MS r' f"
  shows "field_indexed w' HS MS r' f"
proof -
  from before obtain R' c v ch' cm' hp' mp' HT' MT' where
    b: "Records w r' = Some R'" "R' f = Some c" "cell_holds c v"
       "HS f = Some ch'" "cell_holds ch' (PtrV (TUnorderedMultimap (type_of v)) (Some hp'))"
       "MS f = Some cm'" "cell_holds cm' (PtrV (TMultimap (type_of v)) (Some mp'))"
       "HashTables w hp' = Some HT'" "MapTables w mp' = Some MT'"
       "entries_of HT' r' = {#(v, r')#}" "entries_of MT' r' = {#(v, r')#}"
    unfolding field_indexed_def by blast
  show ?thesis
  proof (cases "f = key")
    case True
    with b(4,5) HSk chh have hp: "hp' = hp" and ty: "type_of v = type_of data"
      by (auto simp: cell_holds_def)
    from True b(6,7) MSk cmh have mp: "mp' = mp"
      by (auto simp: cell_holds_def)
    from hp mp b(8,9) HT MT have tabs: "HT' = HT" "MT' = MT" by simp_all
    show ?thesis
    proof (cases "r' = r")
      case same: True
      from SetData_holds[of R key data] obtain c2 where
        c2: "SetData R key data key = Some c2" "cell_holds c2 data" by blast
      show ?thesis
        unfolding field_indexed_def
        apply (rule exI[of _ "SetData R key data"], rule exI[of _ c2], rule exI[of _ data],
            rule exI[of _ ch], rule exI[of _ cm], rule exI[of _ hp], rule exI[of _ mp],
            rule exI[of _ "relocate HT old data r"], rule exI[of _ "relocate MT old data r"])
        using same True c2 HSk chh MSk cmh own
        by (simp add: w' entries_relocate_same)
    next
      case other: False
      show ?thesis
        unfolding field_indexed_def
        apply (rule exI[of _ R'], rule exI[of _ c], rule exI[of _ v],
            rule exI[of _ ch'], rule exI[of _ cm'], rule exI[of _ hp], rule exI[of _ mp],
            rule exI[of _ "relocate HT old data r"], rule exI[of _ "relocate MT old data r"])
        using other True b hp mp tabs
        by (simp add: w' entries_relocate_other)
    qed
  next
    case False
    have fH: "f \<in> dom HS" "key \<in> dom HS" using b(4) HSk by auto
    have fM: "f \<in> dom MS" "key \<in> dom MS" using b(6) MSk by auto
    have aH: "table_address HS f = Some hp'" "table_address HS key = Some hp"
      using b(4,5) HSk chh by (simp_all add: table_address_holds)
    have hp: "hp' \<noteq> hp"
    proof
      assume "hp' = hp"
      with aH have "table_address HS f = table_address HS key" by simp
      from inj_onD[OF injH this fH] False show False by simp
    qed
    have aM: "table_address MS f = Some mp'" "table_address MS key = Some mp"
      using b(6,7) MSk cmh by (simp_all add: table_address_holds)
    have mp: "mp' \<noteq> mp"
    proof
      assume "mp' = mp"
      with aM have "table_address MS f = table_address MS key" by simp
      from inj_onD[OF injM this fM] False show False by simp
    qed
    show ?thesis
    proof (cases "r' = r")
      case same: True
      with b(1) rec have RR: "R' = R" by simp
      show ?thesis
        unfolding field_indexed_def
        apply (rule exI[of _ "SetData R key data"], rule exI[of _ c], rule exI[of _ v],
            rule exI[of _ ch'], rule exI[of _ cm'], rule exI[of _ hp'], rule exI[of _ mp'],
            rule exI[of _ HT'], rule exI[of _ MT'])
        using same False b hp mp RR
        by (simp add: w' SetData_other)
    next
      case other: False
      show ?thesis
        unfolding field_indexed_def
        apply (rule exI[of _ R'], rule exI[of _ c], rule exI[of _ v],
            rule exI[of _ ch'], rule exI[of _ cm'], rule exI[of _ hp'], rule exI[of _ mp'],
            rule exI[of _ HT'], rule exI[of _ MT'])
        using other b hp mp
        by (simp add: w')
    qed
  qed
qed

lemma RecordRef_SetData_live:
  assumes "RecordRef_SetData ref key data w = Inr (b, w')"
    and "DataStorageHashMapStructure ref = Some hs" and "Structures w hs = Some HS"
    and "HS key = Some ch"
    and "DataStorageMapStructure ref = Some ms" and "Structures w ms = Some MS"
    and "MS key = Some cm"
  shows "\<exists>r R. DataRecord ref = Some r \<and> Records w r = Some R"
  using assms
  by (auto simp: RecordRef_SetData_def deref_def GetData_def
      split: sum.splits option.splits prod.splits if_splits)

lemma RecordRef_SetData_typed:
  assumes "RecordRef_SetData ref key data w = Inr (b, w')"
    and "DataStorageHashMapStructure ref = Some hs" and "Structures w hs = Some HS"
    and "HS key = Some ch" and "DataType ch = Some (TPtr (TUnorderedMultimap T))"
    and "DataStorageMapStructure ref = Some ms" and "Structures w ms = Some MS"
    and "MS key = Some cm"
  shows "type_of data = T"
proof (rule ccontr)
  assume "type_of data \<noteq> T"
  then have "GetData HS key (TPtr (TUnorderedMultimap (type_of data)))
      = (True, None, [WrongType (TPtr (TUnorderedMultimap T)) (TPtr (TUnorderedMultimap (type_of data)))])"
    using assms(4,5) by (auto simp: GetData_def DataSaver_GetData_def)
  with assms(1,2,3,6,7,8) show False
    by (auto simp: RecordRef_SetData_def deref_def GetData_def
        split: sum.splits option.splits prod.splits if_splits)
qed

lemma RecordRef_SetData_preserves:
  assumes inv: "index_invariant w hs ms"
    and hs: "DataStorageHashMapStructure ref = Some hs"
    and ms: "DataStorageMapStructure ref = Some ms"
    and call: "RecordRef_SetData ref key data w = Inr (b, w')"
  shows "index_invariant w' hs ms"
proof -
  from inv obtain HS MS where
    S: "Structures w hs = Some HS" "Structures w ms = Some MS" and doms: "dom HS = dom MS"
    and injH: "inj_on (table_address HS) (dom HS)" and injM: "inj_on (table_address MS) (dom MS)"
    and all: "\<And>r f. r \<in> dom (Records w) \<Longrightarrow> f \<in> dom HS \<Longrightarrow> field_indexed w HS MS r f"
    unfolding index_invariant_def by blast
  show ?thesis
  proof (cases "HS key")
    case None
    then have "GetData HS key (TPtr (TUnorderedMultimap (type_of data))) = (False, None, [])"
      by (simp add: GetData_def)
    with call hs S have "w' = w\<lparr>Cout := Cout w\<rparr>"
      by (simp add: RecordRef_SetData_def deref_def)
    with inv show ?thesis by (simp add: index_invariant_Cout)
  next
    case (Some ch)
    then have "key \<in> dom MS" using doms by auto
    then obtain cm where MSk: "MS key = Some cm" by auto
    from RecordRef_SetData_live[OF call hs S(1) Some ms S(2) MSk]
    obtain r R where r: "DataRecord ref = Some r" and R: "Records w r = Some R" by blast
    have "field_indexed w HS MS r key" using all[of r key] R Some by auto
    then obtain c v hp mp HT MT where
      b: "R key = Some c" "cell_holds c v"
         "cell_holds ch (PtrV (TUnorderedMultimap (type_of v)) (Some hp))"
         "cell_holds cm (PtrV (TMultimap (type_of v)) (Some mp))"
         "HashTables w hp = Some HT" "MapTables w mp = Some MT"
         "entries_of HT r = {#(v, r)#}" "entries_of MT r = {#(v, r)#}"
      unfolding field_indexed_def using R Some MSk by auto
    from b(3) have "DataType ch = Some (TPtr (TUnorderedMultimap (type_of v)))"
      by (simp add: cell_holds_def)
    from RecordRef_SetData_typed[OF call hs S(1) Some this ms S(2) MSk]
    have ty: "type_of data = type_of v" .
    have res: "RecordRef_SetData ref key data w =
       Inr (True, w\<lparr>HashTables := (HashTables w)(hp \<mapsto> relocate HT v data r),
            MapTables := (MapTables w)(mp \<mapsto> relocate MT v data r),
            Records := (Records w)(r \<mapsto> SetData R key data)\<rparr>)"
      by (rule RecordRef_SetData_result[OF hs ms r S R Some _ MSk _ b(1,2) _ b(5,6)])
         (simp_all add: ty b(3,4))
    with call have w': "w' = w\<lparr>HashTables := (HashTables w)(hp \<mapsto> relocate HT v data r),
            MapTables := (MapTables w)(mp \<mapsto> relocate MT v data r),
            Records := (Records w)(r \<mapsto> SetData R key data)\<rparr>"
      by simp
    have dom': "dom (Records w') = dom (Records w)"
      using R by (auto simp: w')
    have S': "Structures w' = Structures w" by (simp add: w')
    have each: "field_indexed w' HS MS r' f" if "r' \<in> dom (Records w)" "f \<in> dom HS" for r' f
      by (rule field_indexed_preserved[OF Some _ MSk _ R b(5,6,7,8) injH injM w' all[OF that]])
         (simp_all add: ty b(3,4))
    show ?thesis
      unfolding index_invariant_def
      apply (rule exI[of _ HS], rule exI[of _ MS])
      using S doms injH injM each
      by (simp add: S' dom')
  qed
qed

lemma emplace_find:
  "umap_find (umap_emplace idx k p) k' =
     (case umap_find idx k' of Some q \<Rightarrow> Some q | None \<Rightarrow> if k' = k then Some p else None)"
  by (auto simp: umap_find_def umap_emplace_def map_add_def split: option.splits)

lemma run_fillers_keeps:
  "run_fillers F a H = Inr H' \<Longrightarrow> H p = Some idx \<Longrightarrow> umap_find idx k = Some q \<Longrightarrow>
   \<exists>idx'. H' p = Some idx' \<and> umap_find idx' k = Some q"
proof (induction F a H arbitrary: idx rule: run_fillers.induct)
  case (1 a H)
  then show ?case by simp
next
  case (2 name0 p0 d0 rest a H)
  from "2.prems"(1) obtain idx0 where at: "H p0 = Some idx0"
    and run: "run_fillers rest a (H(p0 \<mapsto> umap_emplace idx0 d0 a)) = Inr H'"
    by (auto split: option.splits)
  show ?case
  proof (cases "p = p0")
    case True
    with at "2.prems"(2) have "idx0 = idx" by simp
    then have "umap_find (umap_emplace idx0 d0 a) k = Some q"
      using "2.prems"(3) by (simp add: emplace_find)
    with "2.IH"[OF at run, of "umap_emplace idx0 d0 a"] True show ?thesis by simp
  next
    case False
    with "2.IH"[OF at run, of idx] "2.prems"(2,3) show ?thesis by simp
  qed
qed

lemma run_fillers_registers:
  "run_fillers F a H = Inr H' \<Longrightarrow> (name, p, d) \<in> set F \<Longrightarrow>
   \<exists>idx idx'. H p = Some idx \<and> H' p = Some idx' \<and>
      umap_find idx' d = Some (case umap_find idx d of None \<Rightarrow> a | Some q \<Rightarrow> q)"
proof (induction F a H rule: run_fillers.induct)
  case (1 a H)
  then show ?case by simp
next
  case (2 name0 p0 d0 rest a H)
  from "2.prems"(1) obtain idx0 where at: "H p0 = Some idx0"
    and run: "run_fillers rest a (H(p0 \<mapsto> umap_emplace idx0 d0 a)) = Inr H'"
    by (auto split: option.splits)
  show ?case
  proof (cases "(name, p, d) = (name0, p0, d0)")
    case True
    then have eq: "p = p0" "d = d0" by simp_all
    have now: "umap_find (umap_emplace idx0 d0 a) d0
        = Some (case umap_find idx0 d0 of None \<Rightarrow> a | Some q \<Rightarrow> q)"
      by (simp add: emplace_find split: option.splits)
    from run_fillers_keeps[OF run _ now, of p0] obtain idx' where
      "H' p0 = Some idx'" "umap_find idx' d0 = Some (case umap_find idx0 d0 of None \<Rightarrow> a | Some q \<Rightarrow> q)"
      by auto
    with at eq show ?thesis by simp
  next
    case False
    with "2.prems"(2) have "(name, p, d) \<in> set rest" by auto
    from "2.IH"[OF at run this] obtain idx1 idx' where
      i: "(H(p0 \<mapsto> umap_emplace idx0 d0 a)) p = Some idx1" "H' p = Some idx'"
         "umap_find idx' d = Some (case umap_find idx1 d of None \<Rightarrow> a | Some q \<Rightarrow> q)"
      by blast
    show ?thesis
    proof (cases "p = p0")
      case True
      with i(1) have "idx1 = umap_emplace idx0 d0 a" by simp
      with i(3) have "umap_find idx' d = Some (case umap_find idx0 d of None \<Rightarrow> a | Some q \<Rightarrow> q)"
        by (simp add: emplace_find split: option.splits if_splits)
      with True at i(2) show ?thesis by simp
    next
      case False
      with i show ?thesis by simp
    qed
  qed
qed

lemma CreateNewRecord_lookup:
  assumes "CreateNewRecord s a = Inr (h, s')"
    and "(name, p, d) \<in> set (DataStorageRecordFillers s)"
    and "KeysMaps s name = Some c"
    and "cell_holds c (PtrV (TUnorderedMap (type_of d)) (Some p))"
  shows "\<exists>idx. IndexHeap s p = Some idx \<and>
     GetRecord s' name d fr =
       Inr (True, fr\<lparr>Data := Some (case umap_find idx d of None \<Rightarrow> a | Some q \<Rightarrow> q),
                      KeysMapsPtr := Some ()\<rparr>, [])"
proof -
  from assms(1) obtain H where run: "run_fillers (DataStorageRecordFillers s) a (IndexHeap s) = Inr H"
    and s': "IndexHeap s' = H" "KeysMaps s' = KeysMaps s"
    by (auto simp: CreateNewRecord_def split: sum.splits)
  from run_fillers_registers[OF run assms(2)] obtain idx idx' where
    i: "IndexHeap s p = Some idx" "H p = Some idx'"
       "umap_find idx' d = Some (case umap_find idx d of None \<Rightarrow> a | Some q \<Rightarrow> q)"
    by blast
  have "GetRecord s' name d fr =
       Inr (True, fr\<lparr>Data := Some (case umap_find idx d of None \<Rightarrow> a | Some q \<Rightarrow> q),
                      KeysMapsPtr := Some ()\<rparr>, [])"
    using assms(3,4) i(2,3)
    by (simp add: GetRecord_def s' GetData_def DataSaver_GetData_def cell_holds_def deref_def)
  with i(1) show ?thesis by blast
qed

lemma AddParam_effect:
  "RecordHeap (AddParam s name d p) = RecordHeap s
   \<and> IndexHeap (AddParam s name d p) p = Some []"
  by (simp add: AddParam_def)

lemma AddParam_declares:
  assumes "KeysMaps s name = None" and "map_of (DataStorageRecordFillers s) name = None"
  shows "(name, p, d) \<in> set (DataStorageRecordFillers (AddParam s name d p))
     \<and> (\<exists>c. KeysMaps (AddParam s name d p) name = Some c
           \<and> cell_holds c (PtrV (TUnorderedMap (type_of d)) (Some p)))"
  using assms
  by (simp add: AddParam_def fillers_emplace_def AddData2_def cell_holds_def cell_defs)

lemma RecordRef_SetData_succeeds:
  assumes inv: "index_invariant w hs ms"
    and hs: "DataStorageHashMapStructure ref = Some hs"
    and ms: "DataStorageMapStructure ref = Some ms"
    and r: "DataRecord ref = Some r" and live: "r \<in> dom (Records w)"
    and S: "Structures w hs = Some HS" and key: "HS key = Some ch"
    and ty: "DataType ch = Some (TPtr (TUnorderedMultimap (type_of data)))"
  shows "\<exists>w'. RecordRef_SetData ref key data w = Inr (True, w')"
proof -
  from inv S obtain MS where
    S2: "Structures w ms = Some MS"
    and all: "\<And>r f. r \<in> dom (Records w) \<Longrightarrow> f \<in> dom HS \<Longrightarrow> field_indexed w HS MS r f"
    unfolding index_invariant_def by auto
  from live obtain R where R: "Records w r = Some R" by auto
  have "field_indexed w HS MS r key" using all[OF live] key by auto
  then obtain c v cm hp mp HT MT where
    b: "R key = Some c" "cell_holds c v"
       "cell_holds ch (PtrV (TUnorderedMultimap (type_of v)) (Some hp))"
       "MS key = Some cm" "cell_holds cm (PtrV (TMultimap (type_of v)) (Some mp))"
       "HashTables w hp = Some HT" "MapTables w mp = Some MT"
    unfolding field_indexed_def using R key by auto
  from b(3) ty have same: "type_of v = type_of data" by (simp add: cell_holds_def)
  have "RecordRef_SetData ref key data w =
       Inr (True, w\<lparr>HashTables := (HashTables w)(hp \<mapsto> relocate HT v data r),
            MapTables := (MapTables w)(mp \<mapsto> relocate MT v data r),
            Records := (Records w)(r \<mapsto> SetData R key data)\<rparr>)"
    by (rule RecordRef_SetData_result[OF hs ms r S S2 R key _ b(4) _ b(1,2) same b(6,7)])
       (simp_all add: same[symmetric] b(3,5))
  then show ?thesis by blast
qed

lemma field_indexedI:
  "Records w r = Some R \<Longrightarrow> R f = Some c \<Longrightarrow> cell_holds c v \<Longrightarrow>
   HS f = Some ch \<Longrightarrow> cell_holds ch (PtrV (TUnorderedMultimap (type_of v)) (Some hp)) \<Longrightarrow>
   MS f = Some cm \<Longrightarrow> cell_holds cm (PtrV (TMultimap (type_of v)) (Some mp)) \<Longrightarrow>
   HashTables w hp = Some HT \<Longrightarrow> MapTables w mp = Some MT \<Longrightarrow>
   entries_of HT r = {#(v, r)#} \<Longrightarrow> entries_of MT r = {#(v, r)#} \<Longrightarrow>
   field_indexed w HS MS r f"
  unfolding field_indexed_def by blast

lemma example_world_invariant: "index_invariant example_world 0 1"
proof -
  have f1: "field_indexed example_world example_hash_structure example_map_structure 0 ''id''"
    by (rule field_indexedI[where R = example_record0 and v = "IntV (- 1)" and hp = 0 and mp = 0
          and c = "DataSaver_make (IntV (- 1)) None"
          and ch = "DataSaver_make (PtrV (TUnorderedMultimap TInt) (Some 0)) (Some delete_table)"
          and cm = "DataSaver_make (PtrV (TMultimap TInt) (Some 0)) (Some delete_table)"
          and HT = "{#(IntV (- 1), 0), (IntV 1, 1)#}" and MT = "{#(IntV (- 1), 0), (IntV 1, 1)#}"])
       (simp_all add: example_defs entries_of_def)
  have f2: "field_indexed example_world example_hash_structure example_map_structure 0 ''name''"
    by (rule field_indexedI[where R = example_record0 and v = "StrV ''''" and hp = 1 and mp = 1
          and c = "DataSaver_make (StrV '''') None"
          and ch = "DataSaver_make (PtrV (TUnorderedMultimap TString) (Some 1)) (Some delete_table)"
          and cm = "DataSaver_make (PtrV (TMultimap TString) (Some 1)) (Some delete_table)"
          and HT = "{#(StrV '''', 0), (StrV ''moop'', 1)#}" and MT = "{#(StrV '''', 0), (StrV ''moop'', 1)#}"])
       (simp_all add: example_defs entries_of_def)
  have f3: "field_indexed example_world example_hash_structure example_map_structure 1 ''id''"
    by (rule field_indexedI[where R = example_record1 and v = "IntV 1" and hp = 0 and mp = 0
          and c = "DataSaver_make (IntV 1) None"
          and ch = "DataSaver_make (PtrV (TUnorderedMultimap TInt) (Some 0)) (Some delete_table)"
          and cm = "DataSaver_make (PtrV (TMultimap TInt) (Some 0)) (Some delete_table)"
          and HT = "{#(IntV (- 1), 0), (IntV 1, 1)#}" and MT = "{#(IntV (- 1), 0), (IntV 1, 1)#}"])
       (simp_all add: example_defs entries_of_def)
  have f4: "field_indexed example_world example_hash_structure example_map_structure 1 ''name''"
    by (rule field_indexedI[where R = example_record1 and v = "StrV ''moop''" and hp = 1 and mp = 1
          and c = "DataSaver_make (StrV ''moop'') None"
          and ch = "DataSaver_make (PtrV (TUnorderedMultimap TString) (Some 1)) (Some delete_table)"
          and cm = "DataSaver_make (PtrV (TMultimap TString) (Some 1)) (Some delete_table)"
          and HT = "{#(StrV '''', 0), (StrV ''moop'', 1)#}" and MT = "{#(StrV '''', 0), (StrV ''moop'', 1)#}"])
       (simp_all add: example_defs entries_of_def)
  have domH: "dom example_hash_structure = {''id'', ''name''}"
    and domM: "dom example_map_structure = {''id'', ''name''}"
    by (auto simp: example_hash_structure_def example_map_structure_def)
  have domR: "dom (Records example_world) = {0, 1}"
    by (auto simp: example_world_def)
  have injH: "inj_on (table_address example_hash_structure) {''id'', ''name''}"
    and injM: "inj_on (table_address example_map_structure) {''id'', ''name''}"
    by (simp_all add: table_address_def example_defs)
  show ?thesis
    unfolding index_invariant_def
    apply (rule exI[of _ example_hash_structure], rule exI[of _ example_map_structure])
    using f1 f2 f3 f4 injH injM
    by (simp add: domH domM domR) (simp add: example_world_def)
qed

text \<open>
  The lemmas above, on the record-reference engine: \<open>DataStorageRecordRef::SetData\<close> preserves
  the index invariant for every record and field whenever it returns, and under the
  invariant it returns true on a live record and a declared field of the value's type. On
  the storage of DataStorage.cpp they show the extent of the defect stated next: after
  \<open>CreateNewRecord\<close>, \<open>GetRecord\<close> on a field and its default binds the new record only when
  no record was registered under the default before the call, and that earlier record
  otherwise.
\<close>

text \<open>
  Claim C1 (code defect). In the storage of DataStorage.cpp the filler run by
  \<open>CreateNewRecord\<close> registers the new record with \<open>pointer->emplace(default, newRecord)\<close> on a
  \<open>std::unordered_map\<close>, which inserts nothing when a record is already registered under the
  default. After \<open>AddParam("id", -1)\<close> and two calls of \<open>CreateNewRecord\<close>, the second record
  is live and holds \<open>id = -1\<close>, the table of \<open>id\<close> has the single entry
  \<open>(-1, first record)\<close> and none for the second record, and \<open>GetRecord("id", -1, ref)\<close> binds
  \<open>ref\<close> to the first record. The storage's own \<open>SetData\<close> relies on the record being
  registered under its value: it uses \<open>find(oldData)\<close> unchecked, so \<open>SetData("id", 7)\<close>
  through the handle of the second record rewrites the first record, which held \<open>-1\<close> and
  now holds \<open>7\<close>, and takes its index entry.
\<close>

theorem second_default_record_is_not_indexed:
  "CreateNewRecord storage_id 0 = Inr (handle0, storage_one)
   \<and> CreateNewRecord storage_one 1 = Inr (handle1, storage_two)
   \<and> DataStorageRecord_GetData handle1 ''id'' TInt storage_two = Inr (True, Some (IntV (- 1)), [])
   \<and> IndexHeap storage_two 0 = Some [(IntV (- 1), 0)]
   \<and> GetRecord storage_two ''id'' (IntV (- 1)) handle1 = Inr (True, handle0, [])
   \<and> Data handle0 \<noteq> Data handle1
   \<and> DataStorageRecord_GetData handle0 ''id'' TInt storage_two = Inr (True, Some (IntV (- 1)), [])
   \<and> DataStorageRecord_SetData handle1 ''id'' (IntV 7) storage_two = Inr storage_overwritten
   \<and> DataStorageRecord_GetData handle0 ''id'' TInt storage_overwritten = Inr (True, Some (IntV 7), [])
   \<and> IndexHeap storage_overwritten 0 = Some [(IntV 7, 1)]"
proof -
  have c1: "CreateNewRecord storage_id 0 = Inr (handle0, storage_one)"
    using create_one by (simp add: storage_one_eq)
  have c2: "CreateNewRecord storage_one 1 = Inr (handle1, storage_two)"
    using create_two by (simp add: storage_two_eq)
  have g: "DataStorageRecord_GetData handle1 ''id'' TInt storage_two = Inr (True, Some (IntV (- 1)), [])"
    by (simp add: storage_two_eq storage_id_eq DataStorageRecord_GetData_def handle1_def deref_def
        container_defs cell_defs)
  have t: "IndexHeap storage_two 0 = Some [(IntV (- 1), 0)]"
    by (simp add: storage_two_eq)
  have f: "GetRecord storage_two ''id'' (IntV (- 1)) handle1 = Inr (True, handle0, [])"
    by (simp add: storage_two_eq storage_id_eq GetRecord_def deref_def umap_find_def
        handle0_def handle1_def container_defs cell_defs)
  have d: "Data handle0 \<noteq> Data handle1"
    by (simp add: handle0_def handle1_def)
  have before: "DataStorageRecord_GetData handle0 ''id'' TInt storage_two
      = Inr (True, Some (IntV (- 1)), [])"
    by (simp add: storage_two_eq storage_id_eq DataStorageRecord_GetData_def handle0_def deref_def
        container_defs cell_defs)
  have w: "DataStorageRecord_SetData handle1 ''id'' (IntV 7) storage_two = Inr storage_overwritten"
    using set_overwritten by (simp add: storage_overwritten_eq)
  have after: "DataStorageRecord_GetData handle0 ''id'' TInt storage_overwritten
      = Inr (True, Some (IntV 7), [])"
    by (simp add: storage_overwritten_eq storage_id_eq DataStorageRecord_GetData_def handle0_def
        deref_def container_defs cell_defs)
  have taken: "IndexHeap storage_overwritten 0 = Some [(IntV 7, 1)]"
    by (simp add: storage_overwritten_eq)
  from c1 c2 g t f d before w after taken show ?thesis by (intro conjI)
qed

end
